theory Spec2Isabelle
  imports Main "HOL-Library.AList"
begin

section \<open>Reflection: type descriptors, values, panics\<close>

text \<open>
  The package works on \<^verbatim>\<open>reflect.Type\<close> and \<^verbatim>\<open>reflect.Value\<close>. A type descriptor is
  modelled by \<open>rtype\<close>; only the kinds the package tests (Func, Interface, Ptr, Struct) are
  told apart, every other type is \<open>Named\<close>. A \<^verbatim>\<open>reflect.Type\<close> variable is an interface
  value and may be nil: it is an \<open>rtype option\<close>, with \<open>None\<close> for nil.
\<close>

datatype kind = Invalid | Func | Interface | Ptr | Struct | Other

datatype rtype =
    Named string
  | PtrTo rtype
  | InterfaceT string
  | FuncT "rtype list" "rtype list"
  | StructT string "field list"
and field =
    StructField (FieldName: string) (FieldTag: string) (FieldExported: bool) (FieldType: rtype)

text \<open>
  A \<^verbatim>\<open>reflect.Value\<close> is the zero Value (the only one whose \<^verbatim>\<open>IsValid\<close> is false) or a
  typed datum. An \<^verbatim>\<open>interface{}\<close> argument is modelled by the same type: nil is \<open>Zero\<close>
  (\<^verbatim>\<open>reflect.ValueOf(nil)\<close> is the zero Value and \<^verbatim>\<open>reflect.TypeOf(nil)\<close> is nil).
  \<open>Ref a\<close> is a pointer to the memory cell \<open>a\<close>, \<open>NilD\<close> a nil pointer or nil func,
  \<open>Code n\<close> the code of a function, \<open>Fields vs\<close> the contents of a struct.
\<close>

datatype rvalue = Zero | Val rtype data
and data = Prim string | Code nat | NilD | Ref nat | Fields "rvalue list"

text \<open>A call either panics (the Go runtime aborts the goroutine) or returns.\<close>

datatype 'a outcome = Panics string | Returns 'a

fun Kind :: "rtype \<Rightarrow> kind" where
  "Kind (Named n) = Other"
| "Kind (PtrTo t) = Ptr"
| "Kind (InterfaceT n) = Interface"
| "Kind (FuncT ins outs) = Func"
| "Kind (StructT n fs) = Struct"

fun IsValid :: "rvalue \<Rightarrow> bool" where
  "IsValid Zero = False"
| "IsValid (Val t d) = True"

fun TypeOf :: "rvalue \<Rightarrow> rtype option" where
  "TypeOf Zero = None"
| "TypeOf (Val t d) = Some t"

definition ValueOf :: "rvalue \<Rightarrow> rvalue" where
  "ValueOf v = v"

definition nil_dereference :: string where
  "nil_dereference = ''invalid memory address or nil pointer dereference''"

section \<open>The injector\<close>

text \<open>
  \<^verbatim>\<open>values map[reflect.Type]reflect.Value\<close> is an association list with one entry per
  key: the order of the list stands for the order in which \<^verbatim>\<open>range\<close> happens to visit
  the map, which Go leaves unspecified, so every statement below is made for all lists.
  \<^verbatim>\<open>handlers map[string][]Handler\<close> is only ever indexed; a nil slice (also what a
  missing key yields) is \<open>None\<close>. \<^verbatim>\<open>parent\<close> is nil or the address of an injector.
  Injectors live in a heap indexed by address, because \<^verbatim>\<open>SetParent\<close> stores a reference.
\<close>

record injector =
  values_map :: "(rtype option \<times> rvalue) list"
  handlers :: "string \<Rightarrow> rvalue list option"
  parent :: "nat option"

type_synonym heap = "nat \<Rightarrow> injector"

definition New :: injector where
  "New = \<lparr>values_map = [], handlers = (\<lambda>_. None), parent = None\<rparr>"

text \<open>Indexing a Go map: the zero Value when the key is missing.\<close>

definition index :: "(rtype option \<times> rvalue) list \<Rightarrow> rtype option \<Rightarrow> rvalue" where
  "index vs t = (case map_of vs t of None \<Rightarrow> Zero | Some v \<Rightarrow> v)"

subsection \<open>InterfaceOf, Map, MapTo, Set, SetParent\<close>

fun strip_ptr :: "rtype \<Rightarrow> rtype" where
  "strip_ptr (PtrTo t) = strip_ptr t"
| "strip_ptr t = t"

definition InterfaceOf :: "rvalue \<Rightarrow> rtype outcome" where
  "InterfaceOf v =
     (case TypeOf v of
        None \<Rightarrow> Panics nil_dereference
      | Some t \<Rightarrow>
          (let t' = strip_ptr t in
           if Kind t' \<noteq> Interface
           then Panics ''Called inject.InterfaceOf with a value that is not a pointer to an interface. (*MyInterface)(nil)''
           else Returns t'))"

definition Set :: "heap \<Rightarrow> nat \<Rightarrow> rtype option \<Rightarrow> rvalue \<Rightarrow> heap" where
  "Set h i typ val = h(i := (h i)\<lparr>values_map := AList.update typ val (values_map (h i))\<rparr>)"

definition Map :: "heap \<Rightarrow> nat \<Rightarrow> rvalue \<Rightarrow> heap" where
  "Map h i val =
     h(i := (h i)\<lparr>values_map := AList.update (TypeOf val) (ValueOf val) (values_map (h i))\<rparr>)"

definition MapTo :: "heap \<Rightarrow> nat \<Rightarrow> rvalue \<Rightarrow> rvalue \<Rightarrow> heap outcome" where
  "MapTo h i val ifacePtr =
     (case InterfaceOf ifacePtr of
        Panics p \<Rightarrow> Panics p
      | Returns t \<Rightarrow>
          Returns (h(i := (h i)\<lparr>values_map :=
                      AList.update (Some t) (ValueOf val) (values_map (h i))\<rparr>)))"

definition SetParent :: "heap \<Rightarrow> nat \<Rightarrow> nat option \<Rightarrow> heap" where
  "SetParent h i p = h(i := (h i)\<lparr>parent := p\<rparr>)"

subsection \<open>Get\<close>

text \<open>
  The \<^verbatim>\<open>range\<close> loop of \<^verbatim>\<open>Get\<close>: the value of the first key that implements \<open>t\<close>, or
  the zero Value \<open>val\<close> still holds when no key does. \<^verbatim>\<open>k.Implements(t)\<close> on a nil key
  is a method call on a nil interface and panics. \<open>impl\<close> is \<^verbatim>\<open>reflect\<close>'s
  \<^verbatim>\<open>Implements\<close> relation.
\<close>

fun scan :: "(rtype \<Rightarrow> rtype \<Rightarrow> bool) \<Rightarrow> (rtype option \<times> rvalue) list \<Rightarrow> rtype \<Rightarrow> rvalue outcome" where
  "scan impl [] t = Returns Zero"
| "scan impl ((k, v) # kvs) t =
     (case k of
        None \<Rightarrow> Panics nil_dereference
      | Some kt \<Rightarrow> if impl kt t then Returns v else scan impl kvs t)"

text \<open>
  \<^verbatim>\<open>Get\<close> recurses into the parent, and nothing keeps the parent references from forming
  a cycle, so it is a partial function: \<open>None\<close> is a call that never returns.
\<close>

partial_function (option) Get ::
  "(rtype \<Rightarrow> rtype \<Rightarrow> bool) \<Rightarrow> heap \<Rightarrow> nat \<Rightarrow> rtype option \<Rightarrow> rvalue outcome option" where
  "Get impl h i t =
    (let val = index (values_map (h i)) t in
     if IsValid val then Some (Returns val)
     else (case t of
        None \<Rightarrow> Some (Panics nil_dereference)
      | Some ty \<Rightarrow>
         (case (if Kind ty = Interface then scan impl (values_map (h i)) ty else Returns val) of
            Panics p \<Rightarrow> Some (Panics p)
          | Returns val' \<Rightarrow>
              (case parent (h i) of
                 Some p \<Rightarrow> if \<not> IsValid val' then Get impl h p t else Some (Returns val')
               | None \<Rightarrow> Some (Returns val')))))"

declare Get.simps [code]

section \<open>Invoke\<close>

text \<open>
  \<^verbatim>\<open>fmt.Errorf("Value not found for type %v", t)\<close>: the only error the package returns;
  it names the type.
\<close>

datatype error = ValueNotFound rtype

text \<open>
  What a called function can read and write: the injectors and the memory that pointers
  refer to. \<^verbatim>\<open>reflect.Value.Call\<close> is a parameter of the model (\<open>call f args w\<close>):
  the callee may return its results, panic, change the world, or never return (\<open>None\<close>).
\<close>

record world =
  injs :: heap
  mem :: "nat \<Rightarrow> data"


fun NumIn :: "rtype \<Rightarrow> nat outcome" where
  "NumIn (FuncT ins outs) = Returns (length ins)"
| "NumIn t = Panics ''reflect: NumIn of non-func type''"

fun In :: "rtype \<Rightarrow> nat \<Rightarrow> rtype outcome" where
  "In (FuncT ins outs) k =
     (if k < length ins then Returns (ins ! k) else Panics ''reflect: Func index out of bounds'')"
| "In t k = Panics ''reflect: In of non-func type''"




section \<open>Apply\<close>

text \<open>
  The loop \<^verbatim>\<open>for v.Kind() == reflect.Ptr { v = v.Elem() }\<close>, followed by the test for a
  struct (\<open>struct_of\<close> starts it at \<^verbatim>\<open>reflect.ValueOf(val)\<close>, and the zero Value that
  \<^verbatim>\<open>ValueOf(nil)\<close> gives has kind Invalid). \<^verbatim>\<open>Elem\<close> of a nil pointer is the zero
  Value too. The result is the struct found, with its address when it was reached
  through a pointer (only then is it addressable), or \<open>NotStruct\<close>.
\<close>

datatype target = NotStruct | StructAt "nat option" "field list"

fun Elem_loop :: "(nat \<Rightarrow> data) \<Rightarrow> rtype \<Rightarrow> data \<Rightarrow> nat option \<Rightarrow> target" where
  "Elem_loop m (PtrTo t) d a = (case d of Ref b \<Rightarrow> Elem_loop m t (m b) (Some b) | _ \<Rightarrow> NotStruct)"
| "Elem_loop m (StructT n fs) d a = StructAt a fs"
| "Elem_loop m t d a = NotStruct"

fun fields_of :: "data \<Rightarrow> rvalue list" where
  "fields_of (Fields vs) = vs"
| "fields_of d = []"

text \<open>
  \<^verbatim>\<open>structField.Tag == "inject" || structField.Tag.Get("inject") != ""\<close>; \<open>tagget\<close> is
  \<^verbatim>\<open>reflect.StructTag.Get\<close>.
\<close>

definition inject_tag :: "(string \<Rightarrow> string \<Rightarrow> string) \<Rightarrow> field \<Rightarrow> bool" where
  "inject_tag tagget sf = (FieldTag sf = ''inject'' \<or> tagget (FieldTag sf) ''inject'' \<noteq> [])"

text \<open>
  \<^verbatim>\<open>f.CanSet()\<close>: the field is addressable (the struct was reached through a pointer)
  and exported.
\<close>

definition CanSet :: "nat option \<Rightarrow> field \<Rightarrow> bool" where
  "CanSet a sf = (a \<noteq> None \<and> FieldExported sf)"

text \<open>
  The loop over the fields, from field number \<open>k\<close> on. \<^verbatim>\<open>f.Set(v)\<close> writes field
  \<open>k\<close> of the struct in memory at once (\<open>Set_field\<close>; a struct without an address
  has no settable field and is never written), and panics when the type of \<open>v\<close> is not
  assignable to the field's type (\<open>assignable\<close> is \<^verbatim>\<open>reflect\<close>'s \<^verbatim>\<open>AssignableTo\<close>).
  The memory comes back as it is when the loop ends, by return or by panic.
\<close>

fun Set_field :: "nat option \<Rightarrow> nat \<Rightarrow> rvalue \<Rightarrow> (nat \<Rightarrow> data) \<Rightarrow> (nat \<Rightarrow> data)" where
  "Set_field (Some b) k v m = m(b := Fields ((fields_of (m b))[k := v]))"
| "Set_field None k v m = m"

fun apply_fields :: "(rtype \<Rightarrow> rtype \<Rightarrow> bool) \<Rightarrow> (rtype \<Rightarrow> rtype \<Rightarrow> bool) \<Rightarrow> (string \<Rightarrow> string \<Rightarrow> string)
    \<Rightarrow> heap \<Rightarrow> nat \<Rightarrow> nat option \<Rightarrow> field list \<Rightarrow> nat \<Rightarrow> (nat \<Rightarrow> data)
    \<Rightarrow> (error option outcome \<times> (nat \<Rightarrow> data)) option" where
  "apply_fields impl assignable tagget h i a [] k m = Some (Returns None, m)"
| "apply_fields impl assignable tagget h i a (sf # sfs) k m =
     (if CanSet a sf \<and> inject_tag tagget sf then
        (case Get impl h i (Some (FieldType sf)) of
           None \<Rightarrow> None
         | Some (Panics p) \<Rightarrow> Some (Panics p, m)
         | Some (Returns v) \<Rightarrow>
             (case v of
                Zero \<Rightarrow> Some (Returns (Some (ValueNotFound (FieldType sf))), m)
              | Val vt d \<Rightarrow>
                  if assignable vt (FieldType sf)
                  then apply_fields impl assignable tagget h i a sfs (Suc k) (Set_field a k v m)
                  else Some (Panics ''reflect.Set: value is not assignable to type'', m)))
      else apply_fields impl assignable tagget h i a sfs (Suc k) m)"

definition struct_of :: "(nat \<Rightarrow> data) \<Rightarrow> rvalue \<Rightarrow> target" where
  "struct_of m v = (case v of Zero \<Rightarrow> NotStruct | Val t d \<Rightarrow> Elem_loop m t d None)"

definition Apply :: "(rtype \<Rightarrow> rtype \<Rightarrow> bool) \<Rightarrow> (rtype \<Rightarrow> rtype \<Rightarrow> bool) \<Rightarrow> (string \<Rightarrow> string \<Rightarrow> string)
    \<Rightarrow> world \<Rightarrow> nat \<Rightarrow> rvalue \<Rightarrow> (error option outcome \<times> world) option" where
  "Apply impl assignable tagget w i val =
     (case struct_of (mem w) (ValueOf val) of
        NotStruct \<Rightarrow> Some (Returns None, w)
      | StructAt a sfs \<Rightarrow>
          (case apply_fields impl assignable tagget (injs w) i a sfs 0 (mem w) of
             None \<Rightarrow> None
           | Some (r, m') \<Rightarrow> Some (r, w\<lparr>mem := m'\<rparr>)))"

section \<open>Events\<close>

record event =
  Src :: nat
  Type :: string
  Data :: rvalue

text \<open>
  \<^verbatim>\<open>validateHandler\<close>. The second test is
  \<^verbatim>\<open>t.NumIn() == 0 && t.In(0) != Event.Type\<close>: its right operand is evaluated only for a
  function without parameters, where \<^verbatim>\<open>t.In(0)\<close> panics with an index out of bounds.
  \<open>eventType\<close> is the type descriptor the source writes \<^verbatim>\<open>Event.Type\<close>.
\<close>

definition validateHandler :: "rtype \<Rightarrow> rvalue \<Rightarrow> unit outcome" where
  "validateHandler eventType handler =
     (case TypeOf handler of
        None \<Rightarrow> Panics nil_dereference
      | Some t \<Rightarrow>
          if Kind t \<noteq> Func then Panics ''inject handler must be a callable func''
          else (case NumIn t of
                  Panics p \<Rightarrow> Panics p
                | Returns n \<Rightarrow>
                    if n = 0 then
                      (case In t 0 of
                         Panics p \<Rightarrow> Panics p
                       | Returns t0 \<Rightarrow>
                           if t0 \<noteq> eventType
                           then Panics ''the first arg of inject handler must be a Event type''
                           else Returns ())
                    else Returns ()))"

fun validate_all :: "rtype \<Rightarrow> rvalue list \<Rightarrow> unit outcome" where
  "validate_all eventType [] = Returns ()"
| "validate_all eventType (x # xs) =
     (case validateHandler eventType x of
        Panics p \<Rightarrow> Panics p
      | Returns u \<Rightarrow> validate_all eventType xs)"

text \<open>
  A Go slice is nil (\<open>None\<close>) or holds elements (\<open>Some xs\<close>, where \<open>xs\<close> may be empty):
  \<^verbatim>\<open>On\<close> and \<^verbatim>\<open>Fire\<close> compare the table entry with nil. The variadic parameter of
  \<^verbatim>\<open>On\<close> is nil when the call passes no handler.
\<close>

fun elems :: "'a list option \<Rightarrow> 'a list" where
  "elems None = []"
| "elems (Some xs) = xs"

definition On :: "rtype \<Rightarrow> heap \<Rightarrow> nat \<Rightarrow> string \<Rightarrow> rvalue list option \<Rightarrow> heap outcome" where
  "On eventType h i key hs =
     (case validate_all eventType (elems hs) of
        Panics p \<Rightarrow> Panics p
      | Returns u \<Rightarrow>
          Returns (h(i := (h i)\<lparr>handlers := (handlers (h i))
            (key := (case handlers (h i) key of
                       None \<Rightarrow> hs
                     | Some old \<Rightarrow> Some (old @ elems hs)))\<rparr>)))"

text \<open>
  \<^verbatim>\<open>Fire\<close>: the Event the call sends on \<^verbatim>\<open>i.events\<close>, or \<open>None\<close> when it sends nothing.
\<close>

definition Fire :: "heap \<Rightarrow> nat \<Rightarrow> string \<Rightarrow> rvalue \<Rightarrow> event option" where
  "Fire h i key d =
     (if handlers (h i) key \<noteq> None then Some \<lparr>Src = i, Type = key, Data = d\<rparr> else None)"

subsection \<open>Start and Stop\<close>

text \<open>
  \<^verbatim>\<open>stopped\<close> is an unbuffered channel that never leaves the injector: a send on it
  completes only when a goroutine receives from it, and the only receive is the
  \<^verbatim>\<open>select\<close> of the goroutine \<^verbatim>\<open>Start\<close> spawns, which then returns. The state of a bus
  is the number of such goroutines that are alive; each is taken to come back to its
  \<^verbatim>\<open>select\<close> after every event. \<^verbatim>\<open>Start\<close> returns at once. \<^verbatim>\<open>Stop\<close> is the send: it
  completes by ending one goroutine, and without one the caller stays blocked.
\<close>

datatype 'a blocking = Blocks | Completes 'a

definition Start :: "nat \<Rightarrow> nat" where
  "Start loops = Suc loops"

definition Stop :: "nat \<Rightarrow> nat blocking" where
  "Stop loops = (case loops of 0 \<Rightarrow> Blocks | Suc n \<Rightarrow> Completes n)"

text \<open>
  A goroutine that calls \<^verbatim>\<open>Start\<close> and \<^verbatim>\<open>Stop\<close> one after the other, on a bus that no
  other goroutine starts: the calls it completes, and whether it ends blocked.
\<close>

datatype api = CallStart | CallStop

fun calls :: "nat \<Rightarrow> api list \<Rightarrow> nat blocking" where
  "calls loops [] = Completes loops"
| "calls loops (CallStart # cs) = calls (Start loops) cs"
| "calls loops (CallStop # cs) =
     (case Stop loops of Blocks \<Rightarrow> Blocks | Completes loops' \<Rightarrow> calls loops' cs)"

section \<open>Notions used in the statements, and example data\<close>

definition tInt :: rtype where "tInt = Named ''int''"
definition tString :: rtype where "tString = Named ''string''"
definition tLogger :: rtype where "tLogger = InterfaceT ''Logger''"
definition tFileLog :: rtype where "tFileLog = PtrTo (StructT ''fileLog'' [])"

definition v3 :: rvalue where "v3 = Val tInt (Prim ''3'')"
definition v7 :: rvalue where "v7 = Val tInt (Prim ''7'')"
definition vHello :: rvalue where "vHello = Val tString (Prim ''hello'')"
definition vFileLog :: rvalue where "vFileLog = Val tFileLog (Ref 100)"
definition vStdLog :: rvalue where "vStdLog = Val (Named ''stdLog'') (Prim ''std'')"

text \<open>In the examples only \<^verbatim>\<open>*fileLog\<close> implements \<^verbatim>\<open>Logger\<close>.\<close>

definition impl0 :: "rtype \<Rightarrow> rtype \<Rightarrow> bool" where
  "impl0 k t = (k = tFileLog \<and> t = tLogger)"

definition heap0 :: heap where "heap0 = (\<lambda>_. New)"

text \<open>
  A registry entry whose key is a type (not nil) that does not implement \<open>t\<close>: what
  the scan of \<^verbatim>\<open>Get\<close> passes over. An entry under the nil key is not one.
\<close>

definition not_implementing :: "(rtype \<Rightarrow> rtype \<Rightarrow> bool) \<Rightarrow> rtype \<Rightarrow> rtype option \<times> rvalue \<Rightarrow> bool" where
  "not_implementing impl t e = (case fst e of None \<Rightarrow> False | Some k \<Rightarrow> \<not> impl k t)"

text \<open>
  A child at address 10 that maps an int and a \<^verbatim>\<open>*fileLog\<close>, with the parent at address
  20 that maps a string.
\<close>

definition heapA :: heap where
  "heapA = SetParent (Map (Map (Map heap0 10 v3) 10 vFileLog) 20 vHello) 10 (Some 20)"

text \<open>
  The calls that change a registry, as data: \<open>binds\<close> is the injector and the type
  descriptor a call binds, \<open>written\<close> the value it binds there, and \<open>mutations\<close> runs
  a sequence of calls until one panics.
\<close>

datatype mutation =
    DoMap nat rvalue
  | DoMapTo nat rvalue rvalue
  | DoSet nat "rtype option" rvalue
  | DoSetParent nat "nat option"

fun mutate :: "heap \<Rightarrow> mutation \<Rightarrow> heap outcome" where
  "mutate h (DoMap i v) = Returns (Map h i v)"
| "mutate h (DoMapTo i v p) = MapTo h i v p"
| "mutate h (DoSet i t v) = Returns (Set h i t v)"
| "mutate h (DoSetParent i p) = Returns (SetParent h i p)"

fun binds :: "mutation \<Rightarrow> (nat \<times> rtype option) option" where
  "binds (DoMap i v) = Some (i, TypeOf v)"
| "binds (DoMapTo i v p) =
     (case InterfaceOf p of Panics msg \<Rightarrow> None | Returns t \<Rightarrow> Some (i, Some t))"
| "binds (DoSet i t v) = Some (i, t)"
| "binds (DoSetParent i p) = None"

fun written :: "mutation \<Rightarrow> rvalue" where
  "written (DoMap i v) = ValueOf v"
| "written (DoMapTo i v p) = ValueOf v"
| "written (DoSet i t v) = v"
| "written (DoSetParent i p) = Zero"

fun mutations :: "heap \<Rightarrow> mutation list \<Rightarrow> heap outcome" where
  "mutations h [] = Returns h"
| "mutations h (m # ms) =
     (case mutate h m of Panics msg \<Rightarrow> Panics msg | Returns h' \<Rightarrow> mutations h' ms)"

text \<open>\<^verbatim>\<open>(*Logger)(nil)\<close>, the witness of the interface type for \<^verbatim>\<open>MapTo\<close>.\<close>

definition pLogger :: rvalue where "pLogger = Val (PtrTo tLogger) NilD"

text \<open>
  A parent at address 20 that binds \<^verbatim>\<open>Logger\<close> to a \<^verbatim>\<open>stdLog\<close> with \<^verbatim>\<open>MapTo\<close>, and its
  child at address 10 that maps a \<^verbatim>\<open>*fileLog\<close>.
\<close>

definition heapB :: heap where
  "heapB = (case MapTo heap0 20 vStdLog pLogger of
              Panics msg \<Rightarrow> heap0
            | Returns h \<Rightarrow> SetParent (Map h 10 vFileLog) 10 (Some 20))"

definition typed_key :: "rtype option \<times> rvalue \<Rightarrow> bool" where
  "typed_key e = (fst e \<noteq> None)"

text \<open>
  A child at address 10 that maps the int 3 and a parent at address 20 that maps the int 7
  and a string, before \<^verbatim>\<open>SetParent\<close> links them.
\<close>

definition heapC :: heap where
  "heapC = Map (Map (Map heap0 10 v3) 20 v7) 20 vHello"

text \<open>\<^verbatim>\<open>Get\<close> finds the value \<open>v\<close> for the type \<open>a\<close>.\<close>

definition resolves :: "(rtype \<Rightarrow> rtype \<Rightarrow> bool) \<Rightarrow> heap \<Rightarrow> nat \<Rightarrow> rtype \<Rightarrow> rvalue \<Rightarrow> bool" where
  "resolves impl h i a v = (Get impl h i (Some a) = Some (Returns v) \<and> IsValid v)"





text \<open>
  Examples for \<^verbatim>\<open>Apply\<close>. Assignability in the examples: identical types, or a type
  that implements the interface. No example tag is in the \<^verbatim>\<open>key:"value"\<close> form, so
  \<^verbatim>\<open>Tag.Get\<close> finds nothing.
\<close>

definition assignable0 :: "rtype \<Rightarrow> rtype \<Rightarrow> bool" where
  "assignable0 vt ft = (vt = ft \<or> impl0 vt ft)"

definition tagget0 :: "string \<Rightarrow> string \<Rightarrow> string" where
  "tagget0 tag key = []"

definition tBool :: rtype where "tBool = Named ''bool''"

definition fCount :: field where "fCount = StructField ''Count'' ''inject'' True tInt"
definition fLabel :: field where "fLabel = StructField ''Label'' [] True tString"
definition fFlag :: field where "fFlag = StructField ''Flag'' ''inject'' True tBool"
definition fName :: field where "fName = StructField ''Name'' ''inject'' True tString"
definition fhidden :: field where "fhidden = StructField ''hidden'' ''inject'' False tBool"

definition int0 :: rvalue where "int0 = Val tInt (Prim ''0'')"
definition str0 :: rvalue where "str0 = Val tString (Prim [])"
definition bool0 :: rvalue where "bool0 = Val tBool (Prim ''false'')"

text \<open>
  \<^verbatim>\<open>struct { Count int `inject`; Label string }\<close> at address 200,
  \<^verbatim>\<open>struct { Count int `inject`; Flag bool `inject`; Name string `inject` }\<close> at
  address 201 and \<^verbatim>\<open>struct { hidden bool `inject` }\<close> at address 202; the registry of
  the injector at address 10 (\<open>heapA\<close>) finds an int and a string, and no bool.
\<close>

definition tTwo :: rtype where "tTwo = StructT ''Two'' [fCount, fLabel]"
definition tThree :: rtype where "tThree = StructT ''Three'' [fCount, fFlag, fName]"
definition tHidden :: rtype where "tHidden = StructT ''Hidden'' [fhidden]"

definition world1 :: world where
  "world1 = \<lparr>injs = heapA,
             mem = (\<lambda>_. NilD)(200 := Fields [int0, str0], 201 := Fields [int0, bool0, str0],
                               202 := Fields [bool0])\<rparr>"

definition pTwo :: rvalue where "pTwo = Val (PtrTo tTwo) (Ref 200)"
definition pThree :: rvalue where "pThree = Val (PtrTo tThree) (Ref 201)"
definition pHidden :: rvalue where "pHidden = Val (PtrTo tHidden) (Ref 202)"
definition sThree :: rvalue where "sThree = Val tThree (Fields [int0, bool0, str0])"

text \<open>
  A field that \<^verbatim>\<open>Apply\<close> can fill with \<open>v\<close>: when the field is exported and tagged,
  \<^verbatim>\<open>Get\<close> finds \<open>v\<close> for its type and \<open>v\<close> is assignable to it.
\<close>

definition fills :: "(rtype \<Rightarrow> rtype \<Rightarrow> bool) \<Rightarrow> (rtype \<Rightarrow> rtype \<Rightarrow> bool) \<Rightarrow> (string \<Rightarrow> string \<Rightarrow> string)
    \<Rightarrow> heap \<Rightarrow> nat \<Rightarrow> field \<Rightarrow> rvalue \<Rightarrow> bool" where
  "fills impl assignable tagget h i sf v =
     (FieldExported sf \<and> inject_tag tagget sf \<longrightarrow>
        resolves impl h i (FieldType sf) v
        \<and> (case TypeOf v of None \<Rightarrow> False | Some vt \<Rightarrow> assignable vt (FieldType sf)))"

text \<open>
  Examples for the events: the \<^verbatim>\<open>Event\<close> type, a handler \<^verbatim>\<open>func(e Event)\<close>, a handler
  \<^verbatim>\<open>func(n int)\<close> whose first parameter is not an Event, and a handler \<^verbatim>\<open>func()\<close>.
\<close>

definition tEvent :: rtype where
  "tEvent = StructT ''Event''
     [StructField ''Src'' [] True (InterfaceT ''Injector''),
      StructField ''Type'' [] True (Named ''string''),
      StructField ''Data'' [] True (InterfaceT ''interface {}'')]"

definition hEvent :: rvalue where "hEvent = Val (FuncT [tEvent] []) (Code 3)"
definition hInt :: rvalue where "hInt = Val (FuncT [tInt] []) (Code 4)"
definition hNone :: rvalue where "hNone = Val (FuncT [] []) (Code 5)"

text \<open>
  Registries with degenerate entries. \<open>heapN\<close>: the injector at address 10 after
  \<^verbatim>\<open>Map(nil)\<close>, which stores the zero Value under the nil key. \<open>heapZ\<close>: a child at
  address 10 whose entry for int holds the zero Value (\<^verbatim>\<open>Set(int, reflect.Value{})\<close>),
  with a parent at address 20 that maps the int 3.
\<close>

definition heapN :: heap where
  "heapN = Map heap0 10 Zero"

definition heapZ :: heap where
  "heapZ = SetParent (Set (Map heap0 20 v3) 10 (Some tInt) Zero) 10 (Some 20)"

text \<open>
  Before \<^verbatim>\<open>SetParent\<close> links the child at address 10 to the parent at address 20, which
  binds \<^verbatim>\<open>Logger\<close> to a \<^verbatim>\<open>stdLog\<close>: in \<open>heapL\<close> the child maps a \<^verbatim>\<open>*fileLog\<close>; in
  \<open>heapD\<close> the child's entry for \<^verbatim>\<open>*fileLog\<close> holds the zero Value.
\<close>

definition heapL :: heap where
  "heapL = Map (Set heap0 20 (Some tLogger) vStdLog) 10 vFileLog"

definition heapD :: heap where
  "heapD = Set (Set heap0 20 (Some tLogger) vStdLog) 10 (Some tFileLog) Zero"

text \<open>
  The injector at address 10 after \<^verbatim>\<open>On("tick", []Handler{}...)\<close>: the entry for
  \<^verbatim>\<open>"tick"\<close> is an empty slice that is not nil.
\<close>

definition heapE :: heap where
  "heapE = heap0(10 := (heap0 10)\<lparr>handlers := (handlers (heap0 10))(''tick'' := Some [])\<rparr>)"

section \<open>Lemmas on the registry\<close>

lemma index_update_same: "index (AList.update k v vs) k = v"
  by (simp add: index_def update_conv')

lemma index_update_other: "k' \<noteq> k \<Longrightarrow> index (AList.update k v vs) k' = index vs k'"
  by (simp add: index_def update_conv')

lemma Get_exact: "IsValid (index (values_map (h i)) t) \<Longrightarrow>
    Get impl h i t = Some (Returns (index (values_map (h i)) t))"
  by (subst Get.simps) (simp add: Let_def)

lemma not_valid_Zero: "\<not> IsValid v \<longleftrightarrow> v = Zero"
  by (cases v) simp_all

lemma scan_first_implementor:
  "list_all (not_implementing impl t) pre \<Longrightarrow> impl k t \<Longrightarrow>
     scan impl (pre @ (Some k, v) # post) t = Returns v"
  by (induction pre) (auto simp: not_implementing_def split: option.splits)

lemma scan_no_implementor:
  "list_all (not_implementing impl t) kvs \<Longrightarrow> scan impl kvs t = Returns Zero"
  by (induction kvs) (auto simp: not_implementing_def split: option.splits)

lemma heapA_child:
  "values_map (heapA 10) = [(Some tInt, v3), (Some tFileLog, vFileLog)]"
  "parent (heapA 10) = Some 20"
  by (simp_all add: heapA_def SetParent_def Map_def heap0_def New_def ValueOf_def
      v3_def vFileLog_def tInt_def tFileLog_def)

lemma heapA_parent:
  "values_map (heapA 20) = [(Some tString, vHello)]"
  "parent (heapA 20) = None"
  by (simp_all add: heapA_def SetParent_def Map_def heap0_def New_def ValueOf_def vHello_def)

lemma scan_nil_key:
  "list_all (not_implementing impl t) pre \<Longrightarrow>
     scan impl (pre @ (None, v) # post) t = Panics nil_dereference"
  by (induction pre) (auto simp: not_implementing_def split: option.splits)

text \<open>
  The scan meets nothing but keys that are types and do not implement \<open>t\<close>, or there is a
  first entry that is otherwise: its key is nil, or is a type that implements \<open>t\<close>.
\<close>

lemma scan_cases:
  "list_all (not_implementing impl t) kvs
   \<or> (\<exists>pre v post. kvs = pre @ (None, v) # post \<and> list_all (not_implementing impl t) pre)
   \<or> (\<exists>pre k v post. kvs = pre @ (Some k, v) # post
         \<and> list_all (not_implementing impl t) pre \<and> impl k t)"
proof (cases "list_all (not_implementing impl t) kvs")
  case True
  then show ?thesis by simp
next
  case False
  then have "\<exists>e \<in> set kvs. \<not> not_implementing impl t e"
    by (simp add: list_all_iff)
  then obtain pre e post where
    d: "kvs = pre @ e # post" "\<not> not_implementing impl t e"
       "\<forall>x \<in> set pre. not_implementing impl t x"
    using split_list_first_prop [of kvs "\<lambda>e. \<not> not_implementing impl t e"] by auto
  obtain k v where e: "e = (k, v)" by (cases e)
  from d(3) have pre: "list_all (not_implementing impl t) pre"
    by (simp add: list_all_iff)
  show ?thesis
  proof (cases k)
    case None
    with d(1) e pre show ?thesis by blast
  next
    case (Some k')
    with d(2) e have "impl k' t" by (simp add: not_implementing_def)
    with d(1) e Some pre show ?thesis by blast
  qed
qed

lemma heapN_10: "values_map (heapN 10) = [(None, Zero)]" "parent (heapN 10) = None"
  by (simp_all add: heapN_def Map_def heap0_def New_def ValueOf_def)

lemma heapZ_child: "values_map (heapZ 10) = [(Some tInt, Zero)]" "parent (heapZ 10) = Some 20"
  by (simp_all add: heapZ_def SetParent_def Set_def Map_def heap0_def New_def)

lemma heapZ_parent: "values_map (heapZ 20) = [(Some tInt, v3)]" "parent (heapZ 20) = None"
  by (simp_all add: heapZ_def SetParent_def Set_def Map_def heap0_def New_def ValueOf_def v3_def)

section \<open>C1: the resolution order of Get\<close>

text \<open>
  Claim C1 as stated fails, in two places. After \<^verbatim>\<open>Map(nil)\<close> the registry holds the nil
  key; \<^verbatim>\<open>Logger\<close> is an interface type that has no binding, no implementor and no
  parent there, and \<^verbatim>\<open>Get(Logger)\<close> does not return the "not found" sentinel: the scan
  calls \<^verbatim>\<open>k.Implements(t)\<close> on the nil key and panics. And a binding is returned at once
  only when its value is valid: the child's map binds int to the zero Value, and
  \<^verbatim>\<open>Get(int)\<close> goes on to the parent and returns the parent's 3.
\<close>

theorem C1_counterexample:
  "map_of (values_map (heapN 10)) (Some tLogger) = None
   \<and> Kind tLogger = Interface
   \<and> values_map (heapN 10) = [(None, Zero)]
   \<and> parent (heapN 10) = None
   \<and> Get impl0 heapN 10 (Some tLogger) = Some (Panics nil_dereference)
   \<and> map_of (values_map (heapZ 10)) (Some tInt) = Some Zero
   \<and> Get impl0 heapZ 10 (Some tInt) = Some (Returns v3)
   \<and> v3 \<noteq> Zero"
proof -
  have "Get impl0 heapN 10 (Some tLogger) = Some (Panics nil_dereference)"
    by (subst Get.simps) (simp add: heapN_10 index_def tLogger_def)
  moreover have "Get impl0 heapZ 10 (Some tInt) = Some (Returns v3)"
    apply (subst Get.simps)
    apply (simp add: heapZ_child index_def tInt_def)
    apply (subst Get.simps)
    apply (simp add: heapZ_parent index_def v3_def tInt_def)
    done
  ultimately show ?thesis
    by (simp add: heapN_10 heapZ_child tLogger_def v3_def)
qed

text \<open>
  Claim C1, amended. For every type descriptor \<open>t\<close> and every registry, \<^verbatim>\<open>Get(t)\<close>
  resolves in this order.
  (1) If the local map binds \<open>t\<close> to a valid value \<open>v\<close>, \<open>v\<close> is returned at once.
  (2) Otherwise, if \<open>t\<close> is an interface type, the local entries are scanned up to the
  first key that implements \<open>t\<close> (the entries \<open>pre\<close> before it have keys that are
  types and do not implement \<open>t\<close>); if that entry holds a valid value \<open>v\<close>, \<open>v\<close> is
  returned.
  (3) If the scan meets a nil key before any key that implements \<open>t\<close>, \<^verbatim>\<open>Get\<close> panics.
  (4) Otherwise, that is when there is no valid exact binding and \<open>t\<close> is no interface
  type, or no key implements \<open>t\<close>, or the first key that implements \<open>t\<close> holds the
  zero Value: the result is the parent's \<^verbatim>\<open>Get(t)\<close> when a parent is set, and the zero
  Value, returned without a panic, when none is set.
  By \<open>scan_cases\<close> these are all the cases.
\<close>

theorem C1_Get_resolution_order:
  "(index (values_map (h i)) (Some t) = v \<and> IsValid v
      \<longrightarrow> Get impl h i (Some t) = Some (Returns v))
 \<and> (\<not> IsValid (index (values_map (h i)) (Some t)) \<and> Kind t = Interface
      \<and> values_map (h i) = pre @ (Some k, v) # post
      \<and> list_all (not_implementing impl t) pre \<and> impl k t \<and> IsValid v
      \<longrightarrow> Get impl h i (Some t) = Some (Returns v))
 \<and> (\<not> IsValid (index (values_map (h i)) (Some t)) \<and> Kind t = Interface
      \<and> values_map (h i) = pre @ (None, v) # post
      \<and> list_all (not_implementing impl t) pre
      \<longrightarrow> Get impl h i (Some t) = Some (Panics nil_dereference))
 \<and> (\<not> IsValid (index (values_map (h i)) (Some t))
      \<and> (Kind t = Interface \<longrightarrow>
            list_all (not_implementing impl t) (values_map (h i))
            \<or> (values_map (h i) = pre @ (Some k, Zero) # post
                 \<and> list_all (not_implementing impl t) pre \<and> impl k t))
      \<longrightarrow> Get impl h i (Some t) =
            (case parent (h i) of
               Some p \<Rightarrow> Get impl h p (Some t)
             | None \<Rightarrow> Some (Returns Zero)))"
proof (intro conjI impI)
  assume "index (values_map (h i)) (Some t) = v \<and> IsValid v"
  then show "Get impl h i (Some t) = Some (Returns v)"
    using Get_exact [of h i "Some t" impl] by simp
next
  assume a: "\<not> IsValid (index (values_map (h i)) (Some t)) \<and> Kind t = Interface
      \<and> values_map (h i) = pre @ (Some k, v) # post
      \<and> list_all (not_implementing impl t) pre \<and> impl k t \<and> IsValid v"
  then have s: "scan impl (values_map (h i)) t = Returns v"
    by (simp add: scan_first_implementor)
  from a have "\<not> IsValid (index (values_map (h i)) (Some t))"
    by (rule conjunct1)
  then have z: "index (values_map (h i)) (Some t) = Zero"
    using not_valid_Zero by blast
  from a have k: "Kind t = Interface" and v: "IsValid v"
    by simp_all
  show "Get impl h i (Some t) = Some (Returns v)"
    by (subst Get.simps) (simp add: Let_def z s k v split: option.splits)
next
  assume a: "\<not> IsValid (index (values_map (h i)) (Some t)) \<and> Kind t = Interface
      \<and> values_map (h i) = pre @ (None, v) # post
      \<and> list_all (not_implementing impl t) pre"
  then have s: "scan impl (values_map (h i)) t = Panics nil_dereference"
    by (simp add: scan_nil_key)
  from a have "\<not> IsValid (index (values_map (h i)) (Some t))"
    by (rule conjunct1)
  then have z: "index (values_map (h i)) (Some t) = Zero"
    using not_valid_Zero by blast
  from a have k: "Kind t = Interface"
    by simp
  show "Get impl h i (Some t) = Some (Panics nil_dereference)"
    by (subst Get.simps) (simp add: Let_def z s k)
next
  assume a: "\<not> IsValid (index (values_map (h i)) (Some t))
      \<and> (Kind t = Interface \<longrightarrow>
            list_all (not_implementing impl t) (values_map (h i))
            \<or> (values_map (h i) = pre @ (Some k, Zero) # post
                 \<and> list_all (not_implementing impl t) pre \<and> impl k t))"
  then have "\<not> IsValid (index (values_map (h i)) (Some t))"
    by (rule conjunct1)
  then have z: "index (values_map (h i)) (Some t) = Zero"
    using not_valid_Zero by blast
  have s: "(if Kind t = Interface then scan impl (values_map (h i)) t else Returns Zero)
             = Returns Zero"
  proof (cases "Kind t = Interface")
    case False
    then show ?thesis by simp
  next
    case True
    with a consider "list_all (not_implementing impl t) (values_map (h i))"
      | "values_map (h i) = pre @ (Some k, Zero) # post
           \<and> list_all (not_implementing impl t) pre \<and> impl k t"
      by blast
    then have "scan impl (values_map (h i)) t = Returns Zero"
    proof cases
      case 1
      then show ?thesis by (rule scan_no_implementor)
    next
      case 2
      then show ?thesis by (simp add: scan_first_implementor)
    qed
    with True show ?thesis by simp
  qed
  show "Get impl h i (Some t) =
            (case parent (h i) of
               Some p \<Rightarrow> Get impl h p (Some t)
             | None \<Rightarrow> Some (Returns Zero))"
    by (subst Get.simps) (simp add: Let_def z s split: option.splits)
qed

theorem C1_Get_resolution_order_witness:
  "Get impl0 heapA 10 (Some tInt) = Some (Returns v3)
 \<and> Get impl0 heapA 10 (Some tLogger) = Some (Returns vFileLog)
 \<and> Get impl0 heapN 10 (Some tLogger) = Some (Panics nil_dereference)
 \<and> Get impl0 heapA 10 (Some tString) = Get impl0 heapA 20 (Some tString)
 \<and> Get impl0 heapA 20 (Some (Named ''bool'')) = Some (Returns Zero)
 \<and> Get impl0 heapZ 10 (Some tInt) = Get impl0 heapZ 20 (Some tInt)"
proof -
  have e1: "index (values_map (heapA 10)) (Some tInt) = v3 \<and> IsValid v3"
    by (simp add: heapA_child index_def v3_def)
  have e2: "\<not> IsValid (index (values_map (heapA 10)) (Some tLogger)) \<and> Kind tLogger = Interface
      \<and> values_map (heapA 10) = [(Some tInt, v3)] @ (Some tFileLog, vFileLog) # []
      \<and> list_all (not_implementing impl0 tLogger) [(Some tInt, v3)]
      \<and> impl0 tFileLog tLogger \<and> IsValid vFileLog"
    by (simp add: heapA_child index_def not_implementing_def impl0_def tInt_def tLogger_def
        tFileLog_def vFileLog_def)
  have e3: "\<not> IsValid (index (values_map (heapN 10)) (Some tLogger)) \<and> Kind tLogger = Interface
      \<and> values_map (heapN 10) = [] @ (None, Zero) # []
      \<and> list_all (not_implementing impl0 tLogger) []"
    by (simp add: heapN_10 index_def tLogger_def)
  have e4: "\<not> IsValid (index (values_map (heapA 10)) (Some tString))
      \<and> (Kind tString = Interface \<longrightarrow>
            list_all (not_implementing impl0 tString) (values_map (heapA 10))
            \<or> (values_map (heapA 10) = [] @ (Some tInt, Zero) # []
                 \<and> list_all (not_implementing impl0 tString) [] \<and> impl0 tInt tString))"
    by (simp add: heapA_child index_def tInt_def tString_def tFileLog_def)
  have e5: "\<not> IsValid (index (values_map (heapA 20)) (Some (Named ''bool'')))
      \<and> (Kind (Named ''bool'') = Interface \<longrightarrow>
            list_all (not_implementing impl0 (Named ''bool'')) (values_map (heapA 20))
            \<or> (values_map (heapA 20) = [] @ (Some tInt, Zero) # []
                 \<and> list_all (not_implementing impl0 (Named ''bool'')) []
                 \<and> impl0 tInt (Named ''bool'')))"
    by (simp add: heapA_parent index_def tString_def)
  have e6: "\<not> IsValid (index (values_map (heapZ 10)) (Some tInt))
      \<and> (Kind tInt = Interface \<longrightarrow>
            list_all (not_implementing impl0 tInt) (values_map (heapZ 10))
            \<or> (values_map (heapZ 10) = [] @ (Some tInt, Zero) # []
                 \<and> list_all (not_implementing impl0 tInt) [] \<and> impl0 tInt tInt))"
    by (simp add: heapZ_child index_def tInt_def)
  have r1: "Get impl0 heapA 10 (Some tInt) = Some (Returns v3)"
    using C1_Get_resolution_order [where h = heapA and i = 10 and t = tInt and v = v3
        and impl = impl0, THEN conjunct1, THEN mp, OF e1] .
  have r2: "Get impl0 heapA 10 (Some tLogger) = Some (Returns vFileLog)"
    using C1_Get_resolution_order [where h = heapA and i = 10 and t = tLogger
        and v = vFileLog and impl = impl0 and pre = "[(Some tInt, v3)]" and k = tFileLog
        and post = "[]", THEN conjunct2, THEN conjunct1, THEN mp, OF e2] .
  have r3: "Get impl0 heapN 10 (Some tLogger) = Some (Panics nil_dereference)"
    using C1_Get_resolution_order [where h = heapN and i = 10 and t = tLogger and v = Zero
        and impl = impl0 and pre = "[]" and post = "[]",
        THEN conjunct2, THEN conjunct2, THEN conjunct1, THEN mp, OF e3] .
  have r4: "Get impl0 heapA 10 (Some tString) = Get impl0 heapA 20 (Some tString)"
    using C1_Get_resolution_order [where h = heapA and i = 10 and t = tString
        and impl = impl0 and pre = "[]" and k = tInt and post = "[]",
        THEN conjunct2, THEN conjunct2, THEN conjunct2, THEN mp, OF e4]
    by (simp add: heapA_child)
  have r5: "Get impl0 heapA 20 (Some (Named ''bool'')) = Some (Returns Zero)"
    using C1_Get_resolution_order [where h = heapA and i = 20 and t = "Named ''bool''"
        and impl = impl0 and pre = "[]" and k = tInt and post = "[]",
        THEN conjunct2, THEN conjunct2, THEN conjunct2, THEN mp, OF e5]
    by (simp add: heapA_parent)
  have r6: "Get impl0 heapZ 10 (Some tInt) = Get impl0 heapZ 20 (Some tInt)"
    using C1_Get_resolution_order [where h = heapZ and i = 10 and t = tInt
        and impl = impl0 and pre = "[]" and k = tInt and post = "[]",
        THEN conjunct2, THEN conjunct2, THEN conjunct2, THEN mp, OF e6]
    by (simp add: heapZ_child)
  from r1 r2 r3 r4 r5 r6 show ?thesis by blast
qed

lemma values_Map: "values_map (Map h i v j) = (if j = i then AList.update (TypeOf v) (ValueOf v) (values_map (h i)) else values_map (h j))"
  by (simp add: Map_def)

lemma values_Set: "values_map (Set h i t v j) = (if j = i then AList.update t v (values_map (h i)) else values_map (h j))"
  by (simp add: Set_def)

lemma values_SetParent: "values_map (SetParent h i p j) = values_map (h j)"
  by (simp add: SetParent_def)

lemma parent_SetParent: "parent (SetParent h i p i) = p"
  by (simp add: SetParent_def)

lemma MapTo_Returns: "MapTo h i v p = Returns h' \<Longrightarrow>
   \<exists>t. InterfaceOf p = Returns t \<and> h' = Set h i (Some t) (ValueOf v)"
  by (auto simp: MapTo_def Set_def split: outcome.splits)

lemma mutate_frame:
  "mutate h m = Returns h' \<Longrightarrow> binds m \<noteq> Some (i, k) \<Longrightarrow>
     index (values_map (h' i)) k = index (values_map (h i)) k"
proof (cases m)
  case (DoMap j v)
  assume "mutate h m = Returns h'" "binds m \<noteq> Some (i, k)"
  with DoMap show ?thesis
    by (auto simp: values_Map index_update_other)
next
  case (DoMapTo j v p)
  assume a: "mutate h m = Returns h'" "binds m \<noteq> Some (i, k)"
  with DoMapTo obtain t where t: "InterfaceOf p = Returns t" "h' = Set h j (Some t) (ValueOf v)"
    using MapTo_Returns by fastforce
  with a DoMapTo show ?thesis
    by (auto simp: values_Set index_update_other)
next
  case (DoSet j t v)
  assume "mutate h m = Returns h'" "binds m \<noteq> Some (i, k)"
  with DoSet show ?thesis
    by (auto simp: values_Set index_update_other)
next
  case (DoSetParent j p)
  assume "mutate h m = Returns h'" "binds m \<noteq> Some (i, k)"
  with DoSetParent show ?thesis
    by (auto simp: values_SetParent)
qed

lemma mutate_bound:
  "mutate h m = Returns h' \<Longrightarrow> binds m = Some (i, k) \<Longrightarrow>
     index (values_map (h' i)) k = written m"
proof (cases m)
  case (DoMapTo j v p)
  assume a: "mutate h m = Returns h'" "binds m = Some (i, k)"
  with DoMapTo obtain t where t: "InterfaceOf p = Returns t" "h' = Set h j (Some t) (ValueOf v)"
    using MapTo_Returns by fastforce
  with a DoMapTo show ?thesis
    by (auto simp: values_Set index_update_same)
qed (auto simp: values_Map values_Set index_update_same)

lemma mutations_frame:
  "mutations h ms = Returns h' \<Longrightarrow> \<forall>m \<in> set ms. binds m \<noteq> Some (i, k) \<Longrightarrow>
     index (values_map (h' i)) k = index (values_map (h i)) k"
proof (induction ms arbitrary: h)
  case Nil
  then show ?case by simp
next
  case (Cons m ms)
  then obtain h1 where h1: "mutate h m = Returns h1" "mutations h1 ms = Returns h'"
    by (auto split: outcome.splits)
  with Cons show ?case
    using mutate_frame [of h m h1 i k] by simp
qed

lemma filter_update_distinct:
  "distinct (map fst xs) \<Longrightarrow> filter (\<lambda>e. fst e = k) (AList.update k v xs) = [(k, v)]"
proof (induction xs)
  case Nil
  then show ?case by simp
next
  case (Cons x xs)
  obtain a b where x: "x = (a, b)" by (cases x)
  show ?case
  proof (cases "a = k")
    case True
    with Cons x have "k \<notin> fst ` set xs" by auto
    then have "filter (\<lambda>e. fst e = k) xs = []"
      by (auto simp: filter_empty_conv)
    with True x show ?thesis by simp
  next
    case False
    with Cons x show ?thesis by simp
  qed
qed

lemma mutate_distinct:
  "mutate h m = Returns h' \<Longrightarrow> \<forall>j. distinct (map fst (values_map (h j))) \<Longrightarrow>
     distinct (map fst (values_map (h' i)))"
proof (cases m)
  case (DoMapTo j v p)
  assume a: "mutate h m = Returns h'" "\<forall>j. distinct (map fst (values_map (h j)))"
  with DoMapTo obtain t where "h' = Set h j (Some t) (ValueOf v)"
    using MapTo_Returns by fastforce
  with a show ?thesis
    by (simp add: values_Set distinct_update)
qed (auto simp: values_Map values_Set values_SetParent distinct_update)

lemma mutations_distinct:
  "mutations h ms = Returns h' \<Longrightarrow> \<forall>j. distinct (map fst (values_map (h j))) \<Longrightarrow>
     distinct (map fst (values_map (h' i)))"
proof (induction ms arbitrary: h)
  case Nil
  then show ?case by simp
next
  case (Cons m ms)
  then obtain h1 where h1: "mutate h m = Returns h1" "mutations h1 ms = Returns h'"
    by (auto split: outcome.splits)
  from h1(1) Cons.prems(2) have "\<forall>j. distinct (map fst (values_map (h1 j)))"
    using mutate_distinct by blast
  with Cons.IH h1(2) show ?case by blast
qed

section \<open>C2: Map, then Get\<close>

text \<open>
  Claim C2. For every value \<open>v\<close>, after \<^verbatim>\<open>Map(v)\<close> on a registry, \<^verbatim>\<open>Get(typeOf(v))\<close> on
  that registry returns \<open>v\<close>; it still does after any later calls of \<^verbatim>\<open>Map\<close>,
  \<^verbatim>\<open>MapTo\<close>, \<^verbatim>\<open>Set\<close> and \<^verbatim>\<open>SetParent\<close>, on any injectors, none of which binds
  that type descriptor in that registry; a later call that binds it overwrites the
  binding without an error, and \<^verbatim>\<open>Get\<close> then returns the value written last; the
  registry never holds two entries for one type descriptor (no registry built from new
  injectors by these calls does), and its entry for the type of \<open>v\<close> is \<open>v\<close>. The value \<open>v\<close> is one that has a type descriptor \<open>t\<close>
  (\<^verbatim>\<open>reflect.TypeOf\<close> of the untyped nil is no type descriptor but nil).
\<close>

theorem C2_Map_then_Get:
  "TypeOf v = Some t \<Longrightarrow>
     Get impl (Map h i v) i (Some t) = Some (Returns v)
   \<and> (\<forall>ms h'. mutations (Map h i v) ms = Returns h' \<and> (\<forall>m \<in> set ms. binds m \<noteq> Some (i, Some t))
        \<longrightarrow> Get impl h' i (Some t) = Some (Returns v))
   \<and> (\<forall>m h'. mutate (Map h i v) m = Returns h' \<and> binds m = Some (i, Some t) \<and> IsValid (written m)
        \<longrightarrow> Get impl h' i (Some t) = Some (Returns (written m)))
   \<and> (distinct (map fst (values_map (h i)))
        \<longrightarrow> distinct (map fst (values_map (Map h i v i)))
          \<and> filter (\<lambda>e. fst e = Some t) (values_map (Map h i v i)) = [(Some t, v)])
   \<and> (\<forall>ms h' j. mutations (\<lambda>_. New) ms = Returns h'
        \<longrightarrow> distinct (map fst (values_map (h' j))))"
proof (intro conjI allI impI)
  assume t: "TypeOf v = Some t"
  then have valid: "IsValid v" by (cases v) simp_all
  have here: "index (values_map (Map h i v i)) (Some t) = v"
    using t by (simp add: values_Map index_update_same ValueOf_def)
  show "Get impl (Map h i v) i (Some t) = Some (Returns v)"
    using Get_exact [of "Map h i v" i "Some t" impl] here valid by simp
  {
    fix ms h'
    assume "mutations (Map h i v) ms = Returns h' \<and> (\<forall>m \<in> set ms. binds m \<noteq> Some (i, Some t))"
    then have "index (values_map (h' i)) (Some t) = index (values_map (Map h i v i)) (Some t)"
      using mutations_frame [of "Map h i v" ms h' i "Some t"] by blast
    with here have "index (values_map (h' i)) (Some t) = v" by simp
    then show "Get impl h' i (Some t) = Some (Returns v)"
      using Get_exact [of h' i "Some t" impl] valid by simp
  }
  {
    fix m h'
    assume a: "mutate (Map h i v) m = Returns h' \<and> binds m = Some (i, Some t) \<and> IsValid (written m)"
    then have "index (values_map (h' i)) (Some t) = written m"
      using mutate_bound [of "Map h i v" m h' i "Some t"] by blast
    then show "Get impl h' i (Some t) = Some (Returns (written m))"
      using Get_exact [of h' i "Some t" impl] a by simp
  }
  {
    assume d: "distinct (map fst (values_map (h i)))"
    then show "distinct (map fst (values_map (Map h i v i)))"
      by (simp add: values_Map distinct_update)
    from d show "filter (\<lambda>e. fst e = Some t) (values_map (Map h i v i)) = [(Some t, v)]"
      using t by (simp add: values_Map filter_update_distinct ValueOf_def)
  }
  {
    fix ms h' j
    assume "mutations (\<lambda>_. New) ms = Returns h'"
    then show "distinct (map fst (values_map (h' j)))"
      using mutations_distinct [of "\<lambda>_. New" ms h' j] by (simp add: New_def)
  }
qed

theorem C2_Map_then_Get_witness:
  "TypeOf v3 = Some tInt
   \<and> Get impl0 (Map heap0 10 v3) 10 (Some tInt) = Some (Returns v3)
   \<and> Get impl0 (SetParent (Map (Map heap0 10 v3) 10 vHello) 10 (Some 20)) 10 (Some tInt) = Some (Returns v3)
   \<and> Get impl0 (Map (Map heap0 10 v3) 10 v7) 10 (Some tInt) = Some (Returns v7)
   \<and> values_map (Map (Map heap0 10 v3) 10 v7 10) = [(Some tInt, v7)]"
proof -
  have t: "TypeOf v3 = Some tInt"
    by (simp add: v3_def)
  have ms: "mutations (Map heap0 10 v3) [DoMap 10 vHello, DoSetParent 10 (Some 20)]
              = Returns (SetParent (Map (Map heap0 10 v3) 10 vHello) 10 (Some 20))
            \<and> (\<forall>m \<in> set [DoMap 10 vHello, DoSetParent 10 (Some 20)]. binds m \<noteq> Some (10, Some tInt))"
    by (simp add: vHello_def tInt_def tString_def)
  have m: "mutate (Map heap0 10 v3) (DoMap 10 v7) = Returns (Map (Map heap0 10 v3) 10 v7)
            \<and> binds (DoMap 10 v7) = Some (10, Some tInt) \<and> IsValid (written (DoMap 10 v7))"
    by (simp add: v7_def ValueOf_def)
  have w: "written (DoMap 10 v7) = v7"
    by (simp add: ValueOf_def)
  have vals: "values_map (Map (Map heap0 10 v3) 10 v7 10) = [(Some tInt, v7)]"
    by (simp add: Map_def heap0_def New_def v3_def v7_def ValueOf_def)
  from C2_Map_then_Get [OF t, of impl0 heap0 10] ms m w vals t show ?thesis
    by metis
qed

lemma scan_typed: "list_all typed_key kvs \<Longrightarrow> \<exists>x. scan impl kvs t = Returns x"
  by (induction kvs) (auto simp: typed_key_def)

lemma Get_local_miss:
  "index (values_map (h i)) (Some t) = Zero \<Longrightarrow>
   (Kind t = Interface \<longrightarrow> scan impl (values_map (h i)) t = Returns Zero) \<Longrightarrow>
   parent (h i) = Some p \<Longrightarrow> Get impl h i (Some t) = Get impl h p (Some t)"
  by (subst Get.simps) (simp add: Let_def)

lemma Get_local_scan:
  "index (values_map (h i)) (Some t) = Zero \<Longrightarrow> Kind t = Interface \<Longrightarrow>
   scan impl (values_map (h i)) t = Returns x \<Longrightarrow> IsValid x \<Longrightarrow>
   Get impl h i (Some t) = Some (Returns x)"
  by (subst Get.simps) (simp add: Let_def split: option.splits)

section \<open>C10: MapTo checks nothing\<close>

text \<open>
  Claim C10. \<^verbatim>\<open>MapTo\<close> makes no assignability check: for every value \<open>v\<close> and every
  witness \<open>p\<close> whose type is a pointer to an interface type \<open>t\<close>, \<^verbatim>\<open>MapTo(v, p)\<close> returns
  without a panic and binds \<open>v\<close> under \<open>t\<close>, and \<^verbatim>\<open>Get(t)\<close> then returns \<open>v\<close> by its
  exact-match step. Nothing is assumed of the \<^verbatim>\<open>Implements\<close> relation \<open>impl\<close>, so this
  holds also when the type of \<open>v\<close> does not implement \<open>t\<close>, as for the \<^verbatim>\<open>stdLog\<close> of the
  example that follows the theorem.
\<close>

theorem C10_MapTo_unchecked:
  "TypeOf p = Some (PtrTo t) \<Longrightarrow> Kind t = Interface \<Longrightarrow> IsValid v \<Longrightarrow>
     MapTo h i v p = Returns (Set h i (Some t) v)
   \<and> index (values_map (Set h i (Some t) v i)) (Some t) = v
   \<and> Get impl (Set h i (Some t) v) i (Some t) = Some (Returns v)"
proof (intro conjI)
  assume p: "TypeOf p = Some (PtrTo t)" and k: "Kind t = Interface" and v: "IsValid v"
  from k have "strip_ptr t = t" by (cases t) simp_all
  with p k have "InterfaceOf p = Returns t"
    by (simp add: InterfaceOf_def)
  then show "MapTo h i v p = Returns (Set h i (Some t) v)"
    by (simp add: MapTo_def Set_def ValueOf_def)
  show here: "index (values_map (Set h i (Some t) v i)) (Some t) = v"
    by (simp add: Set_def index_update_same)
  show "Get impl (Set h i (Some t) v) i (Some t) = Some (Returns v)"
    using Get_exact [of "Set h i (Some t) v" i "Some t" impl] here v by simp
qed

theorem C10_MapTo_unchecked_witness:
  "TypeOf pLogger = Some (PtrTo tLogger) \<and> Kind tLogger = Interface \<and> IsValid vStdLog
   \<and> TypeOf vStdLog = Some (Named ''stdLog'') \<and> \<not> impl0 (Named ''stdLog'') tLogger
   \<and> MapTo heap0 10 vStdLog pLogger = Returns (Set heap0 10 (Some tLogger) vStdLog)
   \<and> Get impl0 (Set heap0 10 (Some tLogger) vStdLog) 10 (Some tLogger) = Some (Returns vStdLog)"
proof -
  have p: "TypeOf pLogger = Some (PtrTo tLogger)" by (simp add: pLogger_def)
  have k: "Kind tLogger = Interface" by (simp add: tLogger_def)
  have v: "IsValid vStdLog" by (simp add: vStdLog_def)
  have n: "TypeOf vStdLog = Some (Named ''stdLog'') \<and> \<not> impl0 (Named ''stdLog'') tLogger"
    by (simp add: vStdLog_def impl0_def tFileLog_def)
  from C10_MapTo_unchecked [OF p k v, of heap0 10 impl0] p k v n show ?thesis
    by simp
qed

section \<open>C3: parent and child\<close>

lemma Get_local_panic:
  "index (values_map (h i)) (Some t) = Zero \<Longrightarrow> Kind t = Interface \<Longrightarrow>
   scan impl (values_map (h i)) t = Panics msg \<Longrightarrow>
   Get impl h i (Some t) = Some (Panics msg)"
  by (subst Get.simps) (simp add: Let_def)

lemma heapB_eq: "heapB = SetParent (Map (Set heap0 20 (Some tLogger) vStdLog) 10 vFileLog) 10 (Some 20)"
  by (simp add: heapB_def MapTo_def InterfaceOf_def pLogger_def tLogger_def Set_def ValueOf_def)

lemma heapB_child:
  "values_map (heapB 10) = [(Some tFileLog, vFileLog)]"
  "parent (heapB 10) = Some 20"
  by (simp_all add: heapB_eq SetParent_def Map_def Set_def heap0_def New_def ValueOf_def vFileLog_def)

lemma heapB_parent:
  "values_map (heapB 20) = [(Some tLogger, vStdLog)]"
  by (simp add: heapB_eq SetParent_def Map_def Set_def heap0_def New_def)

text \<open>
  Claim C3 as stated fails. The parent binds the interface type \<^verbatim>\<open>Logger\<close> (with
  \<^verbatim>\<open>MapTo\<close>), the child does not bind it, but the child maps a \<^verbatim>\<open>*fileLog\<close>, whose type
  implements \<^verbatim>\<open>Logger\<close>: the child's \<^verbatim>\<open>Get(Logger)\<close> returns the child's \<^verbatim>\<open>*fileLog\<close>
  and not the parent's binding, since the scan of the local bindings comes before the
  parent.
\<close>

theorem C3_counterexample:
  "parent (heapB 10) = Some 20
   \<and> map_of (values_map (heapB 20)) (Some tLogger) = Some vStdLog
   \<and> map_of (values_map (heapB 10)) (Some tLogger) = None
   \<and> Get impl0 heapB 20 (Some tLogger) = Some (Returns vStdLog)
   \<and> Get impl0 heapB 10 (Some tLogger) = Some (Returns vFileLog)
   \<and> vFileLog \<noteq> vStdLog"
proof -
  have "Get impl0 heapB 20 (Some tLogger) = Some (Returns vStdLog)"
    by (subst Get.simps) (simp add: heapB_parent index_def vStdLog_def)
  moreover have "Get impl0 heapB 10 (Some tLogger) = Some (Returns vFileLog)"
    by (subst Get.simps)
       (simp add: heapB_child index_def vFileLog_def tFileLog_def tLogger_def impl0_def)
  ultimately show ?thesis
    by (simp add: heapB_child heapB_parent vFileLog_def vStdLog_def tFileLog_def tLogger_def)
qed

text \<open>
  Claim C3, amended. For a child \<open>c\<close> whose parent \<open>p\<close> is set with \<^verbatim>\<open>SetParent\<close>, and
  a type \<open>t\<close> for which the child has no valid exact binding:
  (1) if the parent binds \<open>t\<close> to a valid value \<open>v\<close>, the child's \<^verbatim>\<open>Get(t)\<close> returns
  the parent's \<open>v\<close>, provided \<open>t\<close> is no interface type, or no key of the child
  implements \<open>t\<close>, or the first key of the child that implements \<open>t\<close> holds the zero
  Value;
  (2) if \<open>t\<close> is an interface type and the first key of the child that implements \<open>t\<close>
  holds a valid value \<open>v\<close>, the child's \<^verbatim>\<open>Get(t)\<close> returns this local \<open>v\<close>, whatever
  the parent binds;
  (3) if \<open>t\<close> is an interface type and the child's scan meets a nil key before a key
  that implements \<open>t\<close>, the child's \<^verbatim>\<open>Get(t)\<close> panics.
  And (4) a type that the child binds to a valid value resolves to the child's binding,
  whatever the parent binds. (5) When the parent binds \<open>t\<close> to a valid value and all
  keys of the child are types, the child's \<^verbatim>\<open>Get(t)\<close> returns some valid value.
\<close>

theorem C3_parent_fallback_and_shadowing:
  "(\<not> IsValid (index (values_map (h c)) (Some t))
      \<and> (Kind t = Interface \<longrightarrow>
            list_all (not_implementing impl t) (values_map (h c))
            \<or> (values_map (h c) = pre @ (Some k, Zero) # post
                 \<and> list_all (not_implementing impl t) pre \<and> impl k t))
      \<and> index (values_map (h p)) (Some t) = v \<and> IsValid v
      \<longrightarrow> Get impl (SetParent h c (Some p)) c (Some t) = Some (Returns v))
 \<and> (\<not> IsValid (index (values_map (h c)) (Some t)) \<and> Kind t = Interface
      \<and> values_map (h c) = pre @ (Some k, v) # post
      \<and> list_all (not_implementing impl t) pre \<and> impl k t \<and> IsValid v
      \<longrightarrow> Get impl (SetParent h c (Some p)) c (Some t) = Some (Returns v))
 \<and> (\<not> IsValid (index (values_map (h c)) (Some t)) \<and> Kind t = Interface
      \<and> values_map (h c) = pre @ (None, v) # post
      \<and> list_all (not_implementing impl t) pre
      \<longrightarrow> Get impl (SetParent h c (Some p)) c (Some t) = Some (Panics nil_dereference))
 \<and> (index (values_map (h c)) (Some t) = v \<and> IsValid v
      \<longrightarrow> Get impl (SetParent h c (Some p)) c (Some t) = Some (Returns v))
 \<and> (\<not> IsValid (index (values_map (h c)) (Some t))
      \<and> list_all typed_key (values_map (h c))
      \<and> IsValid (index (values_map (h p)) (Some t))
      \<longrightarrow> (\<exists>v'. Get impl (SetParent h c (Some p)) c (Some t) = Some (Returns v') \<and> IsValid v'))"
proof (intro conjI impI)
  let ?h = "SetParent h c (Some p)"
  have vals: "\<And>j. values_map (?h j) = values_map (h j)"
    by (simp add: values_SetParent)
  have par: "parent (?h c) = Some p"
    by (simp add: parent_SetParent)
  {
    assume a: "\<not> IsValid (index (values_map (h c)) (Some t))
      \<and> (Kind t = Interface \<longrightarrow>
            list_all (not_implementing impl t) (values_map (h c))
            \<or> (values_map (h c) = pre @ (Some k, Zero) # post
                 \<and> list_all (not_implementing impl t) pre \<and> impl k t))
      \<and> index (values_map (h p)) (Some t) = v \<and> IsValid v"
    then have "\<not> IsValid (index (values_map (h c)) (Some t))"
      by (rule conjunct1)
    then have z: "index (values_map (?h c)) (Some t) = Zero"
      by (simp add: vals not_valid_Zero)
    have s: "Kind t = Interface \<longrightarrow> scan impl (values_map (?h c)) t = Returns Zero"
    proof
      assume "Kind t = Interface"
      with a consider "list_all (not_implementing impl t) (values_map (h c))"
        | "values_map (h c) = pre @ (Some k, Zero) # post
             \<and> list_all (not_implementing impl t) pre \<and> impl k t"
        by blast
      then have "scan impl (values_map (h c)) t = Returns Zero"
      proof cases
        case 1
        then show ?thesis by (rule scan_no_implementor)
      next
        case 2
        then show ?thesis by (simp add: scan_first_implementor)
      qed
      then show "scan impl (values_map (?h c)) t = Returns Zero"
        by (simp add: vals)
    qed
    have "Get impl ?h c (Some t) = Get impl ?h p (Some t)"
      using Get_local_miss [of ?h c t impl p] z s par by blast
    also have "\<dots> = Some (Returns v)"
      using Get_exact [of ?h p "Some t" impl] a by (simp add: vals)
    finally show "Get impl ?h c (Some t) = Some (Returns v)" .
  }
  {
    assume a: "\<not> IsValid (index (values_map (h c)) (Some t)) \<and> Kind t = Interface
      \<and> values_map (h c) = pre @ (Some k, v) # post
      \<and> list_all (not_implementing impl t) pre \<and> impl k t \<and> IsValid v"
    then have "\<not> IsValid (index (values_map (h c)) (Some t))"
      by (rule conjunct1)
    then have z: "index (values_map (?h c)) (Some t) = Zero"
      by (simp add: vals not_valid_Zero)
    from a have "scan impl (values_map (h c)) t = Returns v"
      by (simp add: scan_first_implementor)
    then have s: "scan impl (values_map (?h c)) t = Returns v"
      by (simp add: vals)
    from a have k: "Kind t = Interface" and v: "IsValid v"
      by simp_all
    show "Get impl ?h c (Some t) = Some (Returns v)"
      using Get_local_scan [of ?h c t impl v] z k s v by blast
  }
  {
    assume a: "\<not> IsValid (index (values_map (h c)) (Some t)) \<and> Kind t = Interface
      \<and> values_map (h c) = pre @ (None, v) # post
      \<and> list_all (not_implementing impl t) pre"
    then have "\<not> IsValid (index (values_map (h c)) (Some t))"
      by (rule conjunct1)
    then have z: "index (values_map (?h c)) (Some t) = Zero"
      by (simp add: vals not_valid_Zero)
    from a have "scan impl (values_map (h c)) t = Panics nil_dereference"
      by (simp add: scan_nil_key)
    then have s: "scan impl (values_map (?h c)) t = Panics nil_dereference"
      by (simp add: vals)
    from a have k: "Kind t = Interface"
      by simp
    show "Get impl ?h c (Some t) = Some (Panics nil_dereference)"
      using Get_local_panic [of ?h c t impl nil_dereference] z k s by blast
  }
  {
    assume "index (values_map (h c)) (Some t) = v \<and> IsValid v"
    then show "Get impl ?h c (Some t) = Some (Returns v)"
      using Get_exact [of ?h c "Some t" impl] by (simp add: vals)
  }
  {
    assume a: "\<not> IsValid (index (values_map (h c)) (Some t))
      \<and> list_all typed_key (values_map (h c))
      \<and> IsValid (index (values_map (h p)) (Some t))"
    then have z: "index (values_map (?h c)) (Some t) = Zero"
      by (simp add: vals not_valid_Zero)
    from a obtain x where x: "scan impl (values_map (?h c)) t = Returns x"
      using scan_typed [of "values_map (h c)" impl t] by (auto simp: vals)
    have up: "Get impl ?h p (Some t) = Some (Returns (index (values_map (h p)) (Some t)))"
      using Get_exact [of ?h p "Some t" impl] a by (simp add: vals)
    show "\<exists>v'. Get impl ?h c (Some t) = Some (Returns v') \<and> IsValid v'"
    proof (cases "Kind t = Interface \<and> IsValid x")
      case True
      then have "Get impl ?h c (Some t) = Some (Returns x)"
        using Get_local_scan [of ?h c t impl x] z x by blast
      with True show ?thesis by simp
    next
      case False
      then have "Kind t = Interface \<longrightarrow> scan impl (values_map (?h c)) t = Returns Zero"
        using x by (auto simp: not_valid_Zero)
      then have "Get impl ?h c (Some t) = Get impl ?h p (Some t)"
        using Get_local_miss [of ?h c t impl p] z par by blast
      with up a show ?thesis by simp
    qed
  }
qed

lemma heapC_child: "values_map (heapC 10) = [(Some tInt, v3)]"
  by (simp add: heapC_def Map_def heap0_def New_def ValueOf_def v3_def)

lemma heapC_parent: "values_map (heapC 20) = [(Some tInt, v7), (Some tString, vHello)]"
  by (simp add: heapC_def Map_def heap0_def New_def ValueOf_def v7_def vHello_def
      tInt_def tString_def)

lemma heapL_values:
  "values_map (heapL 10) = [(Some tFileLog, vFileLog)]"
  "values_map (heapL 20) = [(Some tLogger, vStdLog)]"
  by (simp_all add: heapL_def Map_def Set_def heap0_def New_def ValueOf_def vFileLog_def)

lemma heapD_values:
  "values_map (heapD 10) = [(Some tFileLog, Zero)]"
  "values_map (heapD 20) = [(Some tLogger, vStdLog)]"
  by (simp_all add: heapD_def Set_def heap0_def New_def)

theorem C3_parent_fallback_and_shadowing_witness:
  "Get impl0 (SetParent heapC 10 (Some 20)) 10 (Some tString) = Some (Returns vHello)
   \<and> Get impl0 (SetParent heapD 10 (Some 20)) 10 (Some tLogger) = Some (Returns vStdLog)
   \<and> index (values_map (heapL 20)) (Some tLogger) = vStdLog
   \<and> Get impl0 (SetParent heapL 10 (Some 20)) 10 (Some tLogger) = Some (Returns vFileLog)
   \<and> Get impl0 (SetParent heapN 10 (Some 20)) 10 (Some tLogger) = Some (Panics nil_dereference)
   \<and> index (values_map (heapC 20)) (Some tInt) = v7
   \<and> Get impl0 (SetParent heapC 10 (Some 20)) 10 (Some tInt) = Some (Returns v3)
   \<and> (\<exists>v'. Get impl0 (SetParent heapC 10 (Some 20)) 10 (Some tString) = Some (Returns v')
           \<and> IsValid v')"
proof -
  have e1: "\<not> IsValid (index (values_map (heapC 10)) (Some tString))
      \<and> (Kind tString = Interface \<longrightarrow>
            list_all (not_implementing impl0 tString) (values_map (heapC 10))
            \<or> (values_map (heapC 10) = [] @ (Some tInt, Zero) # []
                 \<and> list_all (not_implementing impl0 tString) [] \<and> impl0 tInt tString))
      \<and> index (values_map (heapC 20)) (Some tString) = vHello \<and> IsValid vHello"
    by (simp add: heapC_child heapC_parent index_def tInt_def tString_def vHello_def)
  have e1': "\<not> IsValid (index (values_map (heapD 10)) (Some tLogger))
      \<and> (Kind tLogger = Interface \<longrightarrow>
            list_all (not_implementing impl0 tLogger) (values_map (heapD 10))
            \<or> (values_map (heapD 10) = [] @ (Some tFileLog, Zero) # []
                 \<and> list_all (not_implementing impl0 tLogger) [] \<and> impl0 tFileLog tLogger))
      \<and> index (values_map (heapD 20)) (Some tLogger) = vStdLog \<and> IsValid vStdLog"
    by (simp add: heapD_values index_def impl0_def tFileLog_def tLogger_def vStdLog_def)
  have e2: "\<not> IsValid (index (values_map (heapL 10)) (Some tLogger)) \<and> Kind tLogger = Interface
      \<and> values_map (heapL 10) = [] @ (Some tFileLog, vFileLog) # []
      \<and> list_all (not_implementing impl0 tLogger) [] \<and> impl0 tFileLog tLogger
      \<and> IsValid vFileLog"
    by (simp add: heapL_values index_def impl0_def tFileLog_def tLogger_def vFileLog_def)
  have e3: "\<not> IsValid (index (values_map (heapN 10)) (Some tLogger)) \<and> Kind tLogger = Interface
      \<and> values_map (heapN 10) = [] @ (None, Zero) # []
      \<and> list_all (not_implementing impl0 tLogger) []"
    by (simp add: heapN_10 index_def tLogger_def)
  have e4: "index (values_map (heapC 10)) (Some tInt) = v3 \<and> IsValid v3"
    by (simp add: heapC_child index_def v3_def)
  have e5: "\<not> IsValid (index (values_map (heapC 10)) (Some tString))
      \<and> list_all typed_key (values_map (heapC 10))
      \<and> IsValid (index (values_map (heapC 20)) (Some tString))"
    by (simp add: heapC_child heapC_parent index_def typed_key_def tInt_def tString_def
        vHello_def)
  have p7: "index (values_map (heapC 20)) (Some tInt) = v7"
    by (simp add: heapC_parent index_def)
  have pL: "index (values_map (heapL 20)) (Some tLogger) = vStdLog"
    by (simp add: heapL_values index_def)
  have r1: "Get impl0 (SetParent heapC 10 (Some 20)) 10 (Some tString) = Some (Returns vHello)"
    using C3_parent_fallback_and_shadowing [where h = heapC and c = 10 and p = 20
        and t = tString and v = vHello and impl = impl0 and pre = "[]" and k = tInt
        and post = "[]", THEN conjunct1, THEN mp, OF e1] .
  have r1': "Get impl0 (SetParent heapD 10 (Some 20)) 10 (Some tLogger) = Some (Returns vStdLog)"
    using C3_parent_fallback_and_shadowing [where h = heapD and c = 10 and p = 20
        and t = tLogger and v = vStdLog and impl = impl0 and pre = "[]" and k = tFileLog
        and post = "[]", THEN conjunct1, THEN mp, OF e1'] .
  have r2: "Get impl0 (SetParent heapL 10 (Some 20)) 10 (Some tLogger) = Some (Returns vFileLog)"
    using C3_parent_fallback_and_shadowing [where h = heapL and c = 10 and p = 20
        and t = tLogger and v = vFileLog and impl = impl0 and pre = "[]" and k = tFileLog
        and post = "[]", THEN conjunct2, THEN conjunct1, THEN mp, OF e2] .
  have r3: "Get impl0 (SetParent heapN 10 (Some 20)) 10 (Some tLogger)
              = Some (Panics nil_dereference)"
    using C3_parent_fallback_and_shadowing [where h = heapN and c = 10 and p = 20
        and t = tLogger and v = Zero and impl = impl0 and pre = "[]" and post = "[]",
        THEN conjunct2, THEN conjunct2, THEN conjunct1, THEN mp, OF e3] .
  have r4: "Get impl0 (SetParent heapC 10 (Some 20)) 10 (Some tInt) = Some (Returns v3)"
    using C3_parent_fallback_and_shadowing [where h = heapC and c = 10 and p = 20
        and t = tInt and v = v3 and impl = impl0,
        THEN conjunct2, THEN conjunct2, THEN conjunct2, THEN conjunct1, THEN mp, OF e4] .
  have r5: "\<exists>v'. Get impl0 (SetParent heapC 10 (Some 20)) 10 (Some tString) = Some (Returns v')
           \<and> IsValid v'"
    using C3_parent_fallback_and_shadowing [where h = heapC and c = 10 and p = 20
        and t = tString and impl = impl0,
        THEN conjunct2, THEN conjunct2, THEN conjunct2, THEN conjunct2, THEN mp, OF e5] .
  from r1 r1' pL r2 r3 p7 r4 r5 show ?thesis by blast
qed






section \<open>C4: Invoke\<close>


lemma heapA_Get_int: "Get impl0 heapA 10 (Some tInt) = Some (Returns v3)"
  by (subst Get.simps) (simp add: heapA_child index_def v3_def)




section \<open>Lemmas on Apply\<close>

lemma Set_field_other: "x \<noteq> b \<Longrightarrow> Set_field (Some b) k v m x = m x"
  by simp

lemma Set_field_fields: "fields_of (Set_field (Some b) k v m b) = (fields_of (m b))[k := v]"
  by simp

lemma apply_fields_None:
  "apply_fields impl asg tg h i None sfs k m = Some (Returns None, m)"
  by (induction sfs arbitrary: k) (simp_all add: CanSet_def)

lemma apply_fields_frame:
  "apply_fields impl asg tg h i (Some b) sfs k m = Some (r, m') \<Longrightarrow>
     (\<forall>x. x \<noteq> b \<longrightarrow> m' x = m x)
   \<and> length (fields_of (m' b)) = length (fields_of (m b))
   \<and> (\<forall>j. j < k \<or> k + length sfs \<le> j \<or> \<not> inject_tag tg (sfs ! (j - k))
          \<longrightarrow> fields_of (m' b) ! j = fields_of (m b) ! j)"
proof (induction sfs arbitrary: k m)
  case Nil
  then show ?case by simp
next
  case (Cons sf sfs)
  show ?case
  proof (cases "CanSet (Some b) sf \<and> inject_tag tg sf")
    case False
    with Cons.prems have "apply_fields impl asg tg h i (Some b) sfs (Suc k) m = Some (r, m')"
      by auto
    from Cons.IH [OF this] have
      ih: "\<forall>x. x \<noteq> b \<longrightarrow> m' x = m x" "length (fields_of (m' b)) = length (fields_of (m b))"
        "\<forall>j. j < Suc k \<or> Suc k + length sfs \<le> j \<or> \<not> inject_tag tg (sfs ! (j - Suc k))
          \<longrightarrow> fields_of (m' b) ! j = fields_of (m b) ! j"
      by blast+
    have "fields_of (m' b) ! j = fields_of (m b) ! j"
      if "j < k \<or> k + length (sf # sfs) \<le> j \<or> \<not> inject_tag tg ((sf # sfs) ! (j - k))" for j
    proof (cases "j \<le> k")
      case True
      then show ?thesis using ih(3) by auto
    next
      case False
      then have "(sf # sfs) ! (j - k) = sfs ! (j - Suc k)"
        by (simp add: nth_Cons')
      with that False show ?thesis using ih(3) by auto
    qed
    with ih show ?thesis by blast
  next
    case True
    show ?thesis
    proof (cases "Get impl h i (Some (FieldType sf))")
      case None
      with True Cons.prems show ?thesis by simp
    next
      case (Some g)
      show ?thesis
      proof (cases g)
        case (Panics p)
        with Some True Cons.prems show ?thesis by auto
      next
        case (Returns v)
        show ?thesis
        proof (cases v)
          case Zero
          with Returns Some True Cons.prems show ?thesis by auto
        next
          case (Val vt d)
          show ?thesis
          proof (cases "asg vt (FieldType sf)")
            case False
            with Val Returns Some True Cons.prems show ?thesis by auto
          next
            case asg: True
            let ?m1 = "Set_field (Some b) k v m"
            from asg Val Returns Some True Cons.prems
            have "apply_fields impl asg tg h i (Some b) sfs (Suc k) ?m1 = Some (r, m')"
              by simp
            from Cons.IH [OF this] have
              ih: "\<forall>x. x \<noteq> b \<longrightarrow> m' x = ?m1 x"
                "length (fields_of (m' b)) = length (fields_of (?m1 b))"
                "\<forall>j. j < Suc k \<or> Suc k + length sfs \<le> j \<or> \<not> inject_tag tg (sfs ! (j - Suc k))
                   \<longrightarrow> fields_of (m' b) ! j = fields_of (?m1 b) ! j"
              by blast+
            have f1: "fields_of (?m1 b) = (fields_of (m b))[k := v]"
              by simp
            have "fields_of (m' b) ! j = fields_of (m b) ! j"
              if "j < k \<or> k + length (sf # sfs) \<le> j \<or> \<not> inject_tag tg ((sf # sfs) ! (j - k))" for j
            proof (cases "j = k")
              case True
              with that \<open>CanSet (Some b) sf \<and> inject_tag tg sf\<close> show ?thesis by simp
            next
              case False
              show ?thesis
              proof (cases "j < k")
                case True
                then show ?thesis using ih(3) f1 by auto
              next
                case nless: False
                with False have "(sf # sfs) ! (j - k) = sfs ! (j - Suc k)"
                  by (simp add: nth_Cons')
                with that False nless have "fields_of (m' b) ! j = fields_of (?m1 b) ! j"
                  using ih(3) by (auto simp del: Set_field.simps)
                with False show ?thesis by (simp add: f1)
              qed
            qed
            moreover have "\<forall>x. x \<noteq> b \<longrightarrow> m' x = m x"
              using ih(1) by simp
            moreover have "length (fields_of (m' b)) = length (fields_of (m b))"
              using ih(2) by simp
            ultimately show ?thesis by blast
          qed
        qed
      qed
    qed
  qed
qed

lemma apply_fields_missing:
  "list_all2 (fills impl asg tg h i) pre vs \<Longrightarrow>
   FieldExported sf \<Longrightarrow> inject_tag tg sf \<Longrightarrow>
   Get impl h i (Some (FieldType sf)) = Some (Returns Zero) \<Longrightarrow>
   k + length pre \<le> length (fields_of (m b)) \<Longrightarrow>
   \<exists>m'. apply_fields impl asg tg h i (Some b) (pre @ sf # post) k m
           = Some (Returns (Some (ValueNotFound (FieldType sf))), m')
      \<and> (\<forall>x. x \<noteq> b \<longrightarrow> m' x = m x)
      \<and> (\<forall>j. fields_of (m' b) ! j =
              (if k \<le> j \<and> j < k + length pre \<and> FieldExported (pre ! (j - k))
                    \<and> inject_tag tg (pre ! (j - k))
               then vs ! (j - k) else fields_of (m b) ! j))"
proof (induction pre vs arbitrary: k m rule: list_all2_induct)
  case Nil
  then show ?case by (auto simp: CanSet_def)
next
  case (Cons f pre v vs)
  show ?case
  proof (cases "FieldExported f \<and> inject_tag tg f")
    case False
    then have step: "apply_fields impl asg tg h i (Some b) ((f # pre) @ sf # post) k m
        = apply_fields impl asg tg h i (Some b) (pre @ sf # post) (Suc k) m"
      by (auto simp: CanSet_def)
    from Cons.prems have "Suc k + length pre \<le> length (fields_of (m b))" by simp
    from Cons.IH [of "Suc k" m, OF Cons.prems(1-3) this] obtain m' where
      m': "apply_fields impl asg tg h i (Some b) (pre @ sf # post) (Suc k) m
             = Some (Returns (Some (ValueNotFound (FieldType sf))), m')"
          "\<forall>x. x \<noteq> b \<longrightarrow> m' x = m x"
          "\<forall>j. fields_of (m' b) ! j =
              (if Suc k \<le> j \<and> j < Suc k + length pre \<and> FieldExported (pre ! (j - Suc k))
                    \<and> inject_tag tg (pre ! (j - Suc k))
               then vs ! (j - Suc k) else fields_of (m b) ! j)"
      by blast
    have "fields_of (m' b) ! j =
              (if k \<le> j \<and> j < k + length (f # pre) \<and> FieldExported ((f # pre) ! (j - k))
                    \<and> inject_tag tg ((f # pre) ! (j - k))
               then (v # vs) ! (j - k) else fields_of (m b) ! j)" for j
    proof (cases "j \<le> k")
      case True
      with False m'(3) show ?thesis by (cases "j = k") auto
    next
      case nle: False
      then have "(f # pre) ! (j - k) = pre ! (j - Suc k)" "(v # vs) ! (j - k) = vs ! (j - Suc k)"
        by (simp_all add: nth_Cons')
      with nle m'(3) show ?thesis by auto
    qed
    with step m'(1,2) show ?thesis by metis
  next
    case True
    with Cons.hyps(1) obtain vt where
      g: "Get impl h i (Some (FieldType f)) = Some (Returns v)" "IsValid v"
         "TypeOf v = Some vt" "asg vt (FieldType f)"
      by (auto simp: fills_def resolves_def split: option.splits)
    then obtain d where v: "v = Val vt d" by (cases v) auto
    let ?m1 = "Set_field (Some b) k v m"
    have step: "apply_fields impl asg tg h i (Some b) ((f # pre) @ sf # post) k m
        = apply_fields impl asg tg h i (Some b) (pre @ sf # post) (Suc k) ?m1"
      using True g v by (simp add: CanSet_def)
    have f1: "fields_of (?m1 b) = (fields_of (m b))[k := v]" by simp
    from Cons.prems have klt: "k < length (fields_of (m b))" by simp
    from Cons.prems have "Suc k + length pre \<le> length (fields_of (?m1 b))" by simp
    from Cons.IH [of "Suc k" ?m1, OF Cons.prems(1-3) this] obtain m' where
      m': "apply_fields impl asg tg h i (Some b) (pre @ sf # post) (Suc k) ?m1
             = Some (Returns (Some (ValueNotFound (FieldType sf))), m')"
          "\<forall>x. x \<noteq> b \<longrightarrow> m' x = ?m1 x"
          "\<forall>j. fields_of (m' b) ! j =
              (if Suc k \<le> j \<and> j < Suc k + length pre \<and> FieldExported (pre ! (j - Suc k))
                    \<and> inject_tag tg (pre ! (j - Suc k))
               then vs ! (j - Suc k) else fields_of (?m1 b) ! j)"
      by blast
    have "fields_of (m' b) ! j =
              (if k \<le> j \<and> j < k + length (f # pre) \<and> FieldExported ((f # pre) ! (j - k))
                    \<and> inject_tag tg ((f # pre) ! (j - k))
               then (v # vs) ! (j - k) else fields_of (m b) ! j)" for j
    proof (cases "j = k")
      case jk: True
      with m'(3) have "fields_of (m' b) ! j = fields_of (?m1 b) ! k" by simp
      also have "\<dots> = v" using klt by (simp only: f1 nth_list_update_eq)
      finally show ?thesis using jk True by simp
    next
      case ne: False
      show ?thesis
      proof (cases "j < k")
        case True
        with m'(3) have "fields_of (m' b) ! j = fields_of (?m1 b) ! j" by simp
        with True ne show ?thesis by (simp add: f1)
      next
        case nle: False
        with ne have e: "(f # pre) ! (j - k) = pre ! (j - Suc k)"
            "(v # vs) ! (j - k) = vs ! (j - Suc k)"
          by (simp_all add: nth_Cons')
        have "fields_of (?m1 b) ! j = fields_of (m b) ! j"
          using ne by (simp add: f1)
        with e ne nle m'(3) show ?thesis by (auto simp del: Set_field.simps)
      qed
    qed
    moreover have "\<forall>x. x \<noteq> b \<longrightarrow> m' x = m x"
      using m'(2) by simp
    ultimately show ?thesis using step m'(1) by metis
  qed
qed

lemma world_mem_same: "w\<lparr>mem := mem w\<rparr> = (w :: world)"
  by simp

lemma Apply_by_value:
  "struct_of (mem w) val = StructAt None sfs \<Longrightarrow>
     Apply impl asg tg w i val = Some (Returns None, w)"
  by (simp add: Apply_def ValueOf_def apply_fields_None)

lemma heapA_Get_tBool: "Get impl0 heapA 10 (Some tBool) = Some (Returns Zero)"
  apply (subst Get.simps)
  apply (simp add: heapA_child index_def tInt_def tFileLog_def tBool_def)
  apply (subst Get.simps)
  apply (simp add: heapA_parent index_def tString_def tBool_def)
  done

section \<open>C5: Apply and a field that is not found\<close>

text \<open>
  Claim C5 as stated fails. \<^verbatim>\<open>Apply\<close> looks at a tagged field only when
  \<^verbatim>\<open>f.CanSet()\<close> holds. A struct passed by value is not addressable, so none of its
  fields can be set: with a tagged field \<^verbatim>\<open>Flag bool\<close> and no bool in the registry,
  \<^verbatim>\<open>Apply\<close> returns nil and no error. The same happens for a pointer to a struct whose
  tagged field of an unresolved type is unexported.
\<close>

theorem C5_counterexample:
  "struct_of (mem world1) sThree = StructAt None [fCount, fFlag, fName]
   \<and> inject_tag tagget0 fFlag \<and> FieldType fFlag = tBool
   \<and> Get impl0 (injs world1) 10 (Some tBool) = Some (Returns Zero)
   \<and> Apply impl0 assignable0 tagget0 world1 10 sThree = Some (Returns None, world1)
   \<and> struct_of (mem world1) pHidden = StructAt (Some 202) [fhidden]
   \<and> inject_tag tagget0 fhidden \<and> FieldType fhidden = tBool
   \<and> Apply impl0 assignable0 tagget0 world1 10 pHidden = Some (Returns None, world1)"
proof -
  have s1: "struct_of (mem world1) sThree = StructAt None [fCount, fFlag, fName]"
    by (simp add: struct_of_def sThree_def tThree_def)
  have s2: "struct_of (mem world1) pHidden = StructAt (Some 202) [fhidden]"
    by (simp add: struct_of_def pHidden_def tHidden_def)
  have g: "Get impl0 (injs world1) 10 (Some tBool) = Some (Returns Zero)"
    by (simp add: world1_def heapA_Get_tBool)
  have a1: "Apply impl0 assignable0 tagget0 world1 10 sThree = Some (Returns None, world1)"
    using s1 by (rule Apply_by_value)
  have a2: "Apply impl0 assignable0 tagget0 world1 10 pHidden = Some (Returns None, world1)"
    by (simp add: Apply_def ValueOf_def s2 CanSet_def fhidden_def)
  have t: "inject_tag tagget0 fFlag \<and> FieldType fFlag = tBool
      \<and> inject_tag tagget0 fhidden \<and> FieldType fhidden = tBool"
    by (simp add: inject_tag_def fFlag_def fhidden_def)
  from s1 s2 g a1 a2 t show ?thesis by blast
qed

text \<open>
  Claim C5, amended. For every struct reached through a pointer (at address \<open>b\<close>, with
  its declared fields in memory): if an exported field \<open>sf\<close> tagged for injection has a
  type that \<^verbatim>\<open>Get\<close> does not find, and every exported tagged field before it is found
  and assignable, \<^verbatim>\<open>Apply\<close> returns the error that names the type of \<open>sf\<close>. No
  rollback is made: the exported tagged fields before \<open>sf\<close> hold the values found for
  them, and every other field, and all other memory, is as before.
\<close>

theorem C5_Apply_missing_field:
  "struct_of (mem w) val = StructAt (Some b) (pre @ sf # post) \<Longrightarrow>
   length (fields_of (mem w b)) = length (pre @ sf # post) \<Longrightarrow>
   list_all2 (fills impl assignable tagget (injs w) i) pre vs \<Longrightarrow>
   FieldExported sf \<Longrightarrow> inject_tag tagget sf \<Longrightarrow>
   Get impl (injs w) i (Some (FieldType sf)) = Some (Returns Zero) \<Longrightarrow>
   \<exists>w'. Apply impl assignable tagget w i val
           = Some (Returns (Some (ValueNotFound (FieldType sf))), w')
      \<and> injs w' = injs w
      \<and> (\<forall>x. x \<noteq> b \<longrightarrow> mem w' x = mem w x)
      \<and> (\<forall>j. fields_of (mem w' b) ! j =
              (if j < length pre \<and> FieldExported (pre ! j) \<and> inject_tag tagget (pre ! j)
               then vs ! j else fields_of (mem w b) ! j))"
proof -
  assume s: "struct_of (mem w) val = StructAt (Some b) (pre @ sf # post)"
    and len: "length (fields_of (mem w b)) = length (pre @ sf # post)"
    and pre: "list_all2 (fills impl assignable tagget (injs w) i) pre vs"
    and sf: "FieldExported sf" "inject_tag tagget sf"
    and miss: "Get impl (injs w) i (Some (FieldType sf)) = Some (Returns Zero)"
  from len have "0 + length pre \<le> length (fields_of (mem w b))" by simp
  from apply_fields_missing [of impl assignable tagget "injs w" i pre vs sf 0 "mem w" b post,
      OF pre sf miss this]
  obtain m' where
    m': "apply_fields impl assignable tagget (injs w) i (Some b) (pre @ sf # post) 0 (mem w)
           = Some (Returns (Some (ValueNotFound (FieldType sf))), m')"
        "\<forall>x. x \<noteq> b \<longrightarrow> m' x = mem w x"
        "\<forall>j. fields_of (m' b) ! j =
              (if j < length pre \<and> FieldExported (pre ! j) \<and> inject_tag tagget (pre ! j)
               then vs ! j else fields_of (mem w b) ! j)"
    by auto
  have "Apply impl assignable tagget w i val
          = Some (Returns (Some (ValueNotFound (FieldType sf))), w\<lparr>mem := m'\<rparr>)"
    using s m'(1) by (simp add: Apply_def ValueOf_def)
  with m'(2,3) show ?thesis by auto
qed

theorem C5_Apply_missing_field_witness:
  "struct_of (mem world1) pThree = StructAt (Some 201) ([fCount] @ fFlag # [fName])
   \<and> FieldExported fFlag \<and> inject_tag tagget0 fFlag
   \<and> Get impl0 (injs world1) 10 (Some (FieldType fFlag)) = Some (Returns Zero)
   \<and> (\<exists>w'. Apply impl0 assignable0 tagget0 world1 10 pThree
              = Some (Returns (Some (ValueNotFound (FieldType fFlag))), w')
         \<and> fields_of (mem w' 201) ! 0 = v3
         \<and> fields_of (mem w' 201) ! 1 = bool0
         \<and> fields_of (mem w' 201) ! 2 = str0)"
proof -
  have s: "struct_of (mem world1) pThree = StructAt (Some 201) ([fCount] @ fFlag # [fName])"
    by (simp add: struct_of_def pThree_def tThree_def)
  have len: "length (fields_of (mem world1 201)) = length ([fCount] @ fFlag # [fName])"
    by (simp add: world1_def)
  have pre: "list_all2 (fills impl0 assignable0 tagget0 (injs world1) 10) [fCount] [v3]"
    by (simp add: fills_def resolves_def world1_def fCount_def heapA_Get_int v3_def
        assignable0_def)
  have sf: "FieldExported fFlag" "inject_tag tagget0 fFlag"
    by (simp_all add: fFlag_def inject_tag_def)
  have miss: "Get impl0 (injs world1) 10 (Some (FieldType fFlag)) = Some (Returns Zero)"
    by (simp add: world1_def fFlag_def heapA_Get_tBool)
  from C5_Apply_missing_field [OF s len pre sf miss] obtain w' where
    w': "Apply impl0 assignable0 tagget0 world1 10 pThree
              = Some (Returns (Some (ValueNotFound (FieldType fFlag))), w')"
        "\<forall>j. fields_of (mem w' 201) ! j =
              (if j < length [fCount] \<and> FieldExported ([fCount] ! j) \<and> inject_tag tagget0 ([fCount] ! j)
               then [v3] ! j else fields_of (mem world1 201) ! j)"
    by blast
  have "fields_of (mem w' 201) ! 0 = v3"
    using w'(2) [rule_format, of 0] by (simp add: fCount_def inject_tag_def)
  moreover have "fields_of (mem w' 201) ! 1 = bool0"
    using w'(2) [rule_format, of 1] by (simp add: world1_def)
  moreover have "fields_of (mem w' 201) ! 2 = str0"
    using w'(2) [rule_format, of 2] by (simp add: world1_def)
  ultimately show ?thesis using s sf miss w'(1) by blast
qed

section \<open>C6: Apply changes tagged fields only\<close>

text \<open>
  Claim C6. (1) An input that is not a struct (nil, a value of another kind, a nil pointer
  or a pointer to something else) is a no-op that returns success. (2) For a struct
  input, whenever \<^verbatim>\<open>Apply\<close> ends, by return or by panic, the injectors are unchanged,
  memory outside the struct is unchanged, the struct keeps its number of fields, and
  every field that does not carry the inject tag holds what it held before. (3) The
  example: for a pointer to a struct with a tagged, exported, resolvable field and an
  untagged field, \<^verbatim>\<open>Apply\<close> returns success and has set the tagged field only.
\<close>

theorem C6_Apply_frame:
  "(struct_of (mem w) val = NotStruct
      \<longrightarrow> Apply impl assignable tagget w i val = Some (Returns None, w))
 \<and> (struct_of (mem w) val = StructAt a sfs
      \<and> Apply impl assignable tagget w i val = Some (r, w')
      \<longrightarrow> injs w' = injs w
        \<and> (\<forall>x. Some x \<noteq> a \<longrightarrow> mem w' x = mem w x)
        \<and> (\<forall>b j. a = Some b \<and> j < length sfs \<and> \<not> inject_tag tagget (sfs ! j)
              \<longrightarrow> fields_of (mem w' b) ! j = fields_of (mem w b) ! j)
        \<and> (\<forall>b. a = Some b \<longrightarrow> length (fields_of (mem w' b)) = length (fields_of (mem w b))))
 \<and> (struct_of (mem w) val = StructAt (Some c) [f1, f2] \<and> mem w c = Fields [x1, x2]
      \<and> FieldExported f1 \<and> inject_tag tagget f1 \<and> \<not> inject_tag tagget f2
      \<and> Get impl (injs w) i (Some (FieldType f1)) = Some (Returns (Val vt d))
      \<and> assignable vt (FieldType f1)
      \<longrightarrow> Apply impl assignable tagget w i val
            = Some (Returns None, w\<lparr>mem := (mem w)(c := Fields [Val vt d, x2])\<rparr>))"
proof (intro conjI impI)
  assume "struct_of (mem w) val = NotStruct"
  then show "Apply impl assignable tagget w i val = Some (Returns None, w)"
    by (simp add: Apply_def ValueOf_def)
next
  assume a: "struct_of (mem w) val = StructAt a sfs
      \<and> Apply impl assignable tagget w i val = Some (r, w')"
  then obtain m' where
    m': "apply_fields impl assignable tagget (injs w) i a sfs 0 (mem w) = Some (r, m')"
        "w' = w\<lparr>mem := m'\<rparr>"
    by (auto simp: Apply_def ValueOf_def split: option.splits)
  show "injs w' = injs w"
    using m'(2) by simp
  show "\<forall>x. Some x \<noteq> a \<longrightarrow> mem w' x = mem w x"
  proof (cases a)
    case None
    with m' show ?thesis by (simp add: apply_fields_None)
  next
    case (Some b)
    with m' apply_fields_frame [of impl assignable tagget "injs w" i b sfs 0 "mem w" r m']
    show ?thesis by auto
  qed
  show "\<forall>b j. a = Some b \<and> j < length sfs \<and> \<not> inject_tag tagget (sfs ! j)
              \<longrightarrow> fields_of (mem w' b) ! j = fields_of (mem w b) ! j"
  proof (intro allI impI)
    fix b j
    assume b: "a = Some b \<and> j < length sfs \<and> \<not> inject_tag tagget (sfs ! j)"
    with m' have "apply_fields impl assignable tagget (injs w) i (Some b) sfs 0 (mem w) = Some (r, m')"
      by simp
    from apply_fields_frame [OF this] b
    have "fields_of (m' b) ! j = fields_of (mem w b) ! j" by simp
    with m'(2) show "fields_of (mem w' b) ! j = fields_of (mem w b) ! j" by simp
  qed
  show "\<forall>b. a = Some b \<longrightarrow> length (fields_of (mem w' b)) = length (fields_of (mem w b))"
  proof (intro allI impI)
    fix b
    assume "a = Some b"
    with m' have "apply_fields impl assignable tagget (injs w) i (Some b) sfs 0 (mem w) = Some (r, m')"
      by simp
    from apply_fields_frame [OF this] m'(2)
    show "length (fields_of (mem w' b)) = length (fields_of (mem w b))" by simp
  qed
next
  assume "struct_of (mem w) val = StructAt (Some c) [f1, f2] \<and> mem w c = Fields [x1, x2]
      \<and> FieldExported f1 \<and> inject_tag tagget f1 \<and> \<not> inject_tag tagget f2
      \<and> Get impl (injs w) i (Some (FieldType f1)) = Some (Returns (Val vt d))
      \<and> assignable vt (FieldType f1)"
  then show "Apply impl assignable tagget w i val
            = Some (Returns None, w\<lparr>mem := (mem w)(c := Fields [Val vt d, x2])\<rparr>)"
    by (simp add: Apply_def ValueOf_def CanSet_def)
qed

theorem C6_Apply_frame_witness:
  "struct_of (mem world1) v3 = NotStruct
   \<and> Apply impl0 assignable0 tagget0 world1 10 v3 = Some (Returns None, world1)
   \<and> struct_of (mem world1) pTwo = StructAt (Some 200) [fCount, fLabel]
   \<and> inject_tag tagget0 fCount \<and> \<not> inject_tag tagget0 fLabel
   \<and> Apply impl0 assignable0 tagget0 world1 10 pTwo
        = Some (Returns None, world1\<lparr>mem := (mem world1)(200 := Fields [v3, str0])\<rparr>)
   \<and> fields_of (mem (world1\<lparr>mem := (mem world1)(200 := Fields [v3, str0])\<rparr>) 200) ! 1
        = fields_of (mem world1 200) ! 1"
proof -
  let ?w' = "world1\<lparr>mem := (mem world1)(200 := Fields [v3, str0])\<rparr>"
  have n: "struct_of (mem world1) v3 = NotStruct"
    by (simp add: struct_of_def v3_def tInt_def)
  have s: "struct_of (mem world1) pTwo = StructAt (Some 200) [fCount, fLabel]"
    by (simp add: struct_of_def pTwo_def tTwo_def)
  have e0: "mem world1 200 = Fields [int0, str0]
      \<and> FieldExported fCount \<and> inject_tag tagget0 fCount \<and> \<not> inject_tag tagget0 fLabel
      \<and> Get impl0 (injs world1) 10 (Some (FieldType fCount)) = Some (Returns (Val tInt (Prim ''3'')))
      \<and> assignable0 tInt (FieldType fCount)"
    using heapA_Get_int
    by (simp add: world1_def fCount_def fLabel_def inject_tag_def tagget0_def v3_def
        assignable0_def)
  from s e0 have e: "struct_of (mem world1) pTwo = StructAt (Some 200) [fCount, fLabel]
      \<and> mem world1 200 = Fields [int0, str0]
      \<and> FieldExported fCount \<and> inject_tag tagget0 fCount \<and> \<not> inject_tag tagget0 fLabel
      \<and> Get impl0 (injs world1) 10 (Some (FieldType fCount)) = Some (Returns (Val tInt (Prim ''3'')))
      \<and> assignable0 tInt (FieldType fCount)"
    by blast
  have a1: "Apply impl0 assignable0 tagget0 world1 10 v3 = Some (Returns None, world1)"
    using C6_Apply_frame [where w = world1 and val = v3, THEN conjunct1, THEN mp, OF n] .
  have a2: "Apply impl0 assignable0 tagget0 world1 10 pTwo = Some (Returns None, ?w')"
    using C6_Apply_frame [where w = world1 and val = pTwo and c = 200 and ?f1.0 = fCount
        and ?f2.0 = fLabel and ?x1.0 = int0 and ?x2.0 = str0 and impl = impl0
        and assignable = assignable0 and tagget = tagget0 and i = 10 and vt = tInt
        and d = "Prim ''3''", THEN conjunct2, THEN conjunct2, THEN mp, OF e]
    by (simp add: v3_def)
  have "fields_of (mem ?w' 200) ! 1 = fields_of (mem world1 200) ! 1"
    using C6_Apply_frame [where w = world1 and val = pTwo and a = "Some 200"
        and sfs = "[fCount, fLabel]" and impl = impl0 and assignable = assignable0
        and tagget = tagget0 and i = 10 and r = "Returns None" and w' = ?w',
        THEN conjunct2, THEN conjunct1, THEN mp, OF conjI [OF s a2]] e
    by (simp del: fun_upd_apply)
  with n s e a1 a2 show ?thesis by blast
qed

section \<open>Lemmas on the events\<close>

lemma validateHandler_with_parameter:
  "TypeOf hdl = Some (FuncT (a # ins) outs) \<Longrightarrow> validateHandler eventType hdl = Returns ()"
  by (simp add: validateHandler_def)

lemma validateHandler_not_func:
  "TypeOf hdl = Some t \<Longrightarrow> Kind t \<noteq> Func \<Longrightarrow>
     validateHandler eventType hdl = Panics ''inject handler must be a callable func''"
  by (simp add: validateHandler_def)

lemma validateHandler_no_parameter:
  "TypeOf hdl = Some (FuncT [] outs) \<Longrightarrow>
     validateHandler eventType hdl = Panics ''reflect: Func index out of bounds''"
  by (simp add: validateHandler_def)

lemma handlers_On:
  "On eventType h i key hs = Returns h' \<Longrightarrow>
     handlers (h' i) key =
       (case handlers (h i) key of None \<Rightarrow> hs | Some old \<Rightarrow> Some (old @ elems hs))
   \<and> (\<forall>key'. key' \<noteq> key \<longrightarrow> handlers (h' i) key' = handlers (h i) key')"
  by (auto simp: On_def split: outcome.splits)

section \<open>C7: On validates the handlers\<close>

text \<open>
  Claim C7 says that \<^verbatim>\<open>On\<close> aborts with a panic when the first declared parameter of
  a handler is not of the Event type. The code does not. Evaluated here: the handler
  \<^verbatim>\<open>func(n int)\<close>, whose first parameter is an int, passes \<^verbatim>\<open>validateHandler\<close>, as
  \<^verbatim>\<open>func(e Event)\<close> does, and \<^verbatim>\<open>On\<close> returns with it in the table entry for the kind;
  \<^verbatim>\<open>func()\<close> panics inside \<^verbatim>\<open>t.In(0)\<close>, and a value that is not a function panics as
  the claim says. (\<open>validateHandler_with_parameter\<close>: every function with at least one
  parameter passes, since the comparison with the Event type is guarded by
  \<^verbatim>\<open>t.NumIn() == 0\<close>.)
\<close>

theorem C7_first_parameter_not_checked:
  "TypeOf hInt = Some (FuncT [tInt] []) \<and> In (FuncT [tInt] []) 0 = Returns tInt
   \<and> tInt \<noteq> tEvent
   \<and> validateHandler tEvent hInt = Returns ()
   \<and> validateHandler tEvent hEvent = Returns ()
   \<and> validateHandler tEvent hNone = Panics ''reflect: Func index out of bounds''
   \<and> validateHandler tEvent v3 = Panics ''inject handler must be a callable func''
   \<and> On tEvent heap0 10 ''tick'' (Some [hInt])
        = Returns (heap0(10 := (heap0 10)\<lparr>handlers := (handlers (heap0 10))(''tick'' := Some [hInt])\<rparr>))"
  by (simp add: hInt_def hEvent_def hNone_def v3_def tInt_def tEvent_def validateHandler_def
      On_def heap0_def New_def)

section \<open>C8: Fire\<close>

text \<open>
  Claim C8 as stated fails. \<^verbatim>\<open>On("tick", []Handler{}...)\<close> on a new bus validates no
  handler and stores the empty slice it was passed, which is not nil, as the table entry.
  No handler is registered for \<^verbatim>\<open>"tick"\<close>, yet \<^verbatim>\<open>Fire("tick", 3)\<close> is no no-op: the
  entry is not nil, so the Event is built and sent.
\<close>

theorem C8_counterexample:
  "On tEvent heap0 10 ''tick'' (Some []) = Returns heapE
   \<and> elems (handlers (heapE 10) ''tick'') = []
   \<and> Fire heapE 10 ''tick'' v3 = Some \<lparr>Src = 10, Type = ''tick'', Data = v3\<rparr>"
  by (simp add: On_def Fire_def heapE_def heap0_def New_def)

text \<open>
  Claim C8, amended. \<^verbatim>\<open>Fire(kind, payload)\<close> is a no-op, with no Event built or sent on
  the channel, when the entry for \<open>kind\<close> in the local handler table is nil; when the
  entry is not nil, \<^verbatim>\<open>Fire\<close> sends the Event with \<^verbatim>\<open>Src\<close> the bus, \<^verbatim>\<open>Type\<close> the kind
  and \<^verbatim>\<open>Data\<close> the payload, however many handlers the entry holds. In terms of
  \<^verbatim>\<open>On\<close>: the entry is nil on a new bus; a call of \<^verbatim>\<open>On\<close> for \<open>kind\<close> that passes a
  slice (one handler or more, or an empty slice that is not nil) makes the entry not
  nil, so that the Event is sent; a call for another kind changes nothing for \<open>kind\<close>,
  and a call for \<open>kind\<close> without arguments leaves a nil entry nil. Only the table of the
  bus itself is read, never the parent's.
\<close>

theorem C8_Fire:
  "(handlers (h i) kind = None \<longrightarrow> Fire h i kind payload = None)
 \<and> (handlers (h i) kind = Some hs
      \<longrightarrow> Fire h i kind payload = Some \<lparr>Src = i, Type = kind, Data = payload\<rparr>)
 \<and> Fire (\<lambda>_. New) i kind payload = None
 \<and> (On eventType h i kind (Some xs) = Returns h'
      \<longrightarrow> Fire h' i kind payload = Some \<lparr>Src = i, Type = kind, Data = payload\<rparr>)
 \<and> (On eventType h i kind' hs' = Returns h' \<and> kind' \<noteq> kind
      \<longrightarrow> Fire h' i kind payload = Fire h i kind payload)
 \<and> (On eventType h i kind None = Returns h' \<and> handlers (h i) kind = None
      \<longrightarrow> Fire h' i kind payload = None)"
proof (intro conjI impI)
  assume "handlers (h i) kind = None"
  then show "Fire h i kind payload = None"
    by (simp add: Fire_def)
next
  assume "handlers (h i) kind = Some hs"
  then show "Fire h i kind payload = Some \<lparr>Src = i, Type = kind, Data = payload\<rparr>"
    by (simp add: Fire_def)
next
  show "Fire (\<lambda>_. New) i kind payload = None"
    by (simp add: Fire_def New_def)
next
  assume "On eventType h i kind (Some xs) = Returns h'"
  then have "handlers (h' i) kind \<noteq> None"
    using handlers_On [of eventType h i kind "Some xs" h']
    by (auto split: option.splits)
  then show "Fire h' i kind payload = Some \<lparr>Src = i, Type = kind, Data = payload\<rparr>"
    by (simp add: Fire_def)
next
  assume "On eventType h i kind' hs' = Returns h' \<and> kind' \<noteq> kind"
  then have "handlers (h' i) kind = handlers (h i) kind"
    using handlers_On [of eventType h i kind' hs' h'] by auto
  then show "Fire h' i kind payload = Fire h i kind payload"
    by (simp add: Fire_def)
next
  assume "On eventType h i kind None = Returns h' \<and> handlers (h i) kind = None"
  then have "handlers (h' i) kind = None"
    using handlers_On [of eventType h i kind None h'] by auto
  then show "Fire h' i kind payload = None"
    by (simp add: Fire_def)
qed

theorem C8_Fire_witness:
  "handlers (heap0 10) ''tick'' = None
   \<and> Fire heap0 10 ''tick'' v3 = None
   \<and> On tEvent heap0 10 ''tick'' (Some [hEvent])
        = Returns (heap0(10 := (heap0 10)\<lparr>handlers := (handlers (heap0 10))(''tick'' := Some [hEvent])\<rparr>))
   \<and> Fire (heap0(10 := (heap0 10)\<lparr>handlers := (handlers (heap0 10))(''tick'' := Some [hEvent])\<rparr>))
        10 ''tick'' v3 = Some \<lparr>Src = 10, Type = ''tick'', Data = v3\<rparr>
   \<and> Fire (heap0(10 := (heap0 10)\<lparr>handlers := (handlers (heap0 10))(''tick'' := Some [hEvent])\<rparr>))
        10 ''tock'' v3 = None
   \<and> Fire (heap0(10 := (heap0 10)\<lparr>handlers := (handlers (heap0 10))(''tick'' := None)\<rparr>))
        10 ''tick'' v3 = None"
proof -
  let ?h' = "heap0(10 := (heap0 10)\<lparr>handlers := (handlers (heap0 10))(''tick'' := Some [hEvent])\<rparr>)"
  have n: "handlers (heap0 10) ''tick'' = None"
    by (simp add: heap0_def New_def)
  have on: "On tEvent heap0 10 ''tick'' (Some [hEvent]) = Returns ?h'"
    by (simp add: On_def hEvent_def validateHandler_def heap0_def New_def)
  have on2: "On tEvent heap0 10 ''tick'' (Some [hEvent]) = Returns ?h' \<and> ''tick'' \<noteq> ''tock''"
    using on by simp
  have f0: "Fire heap0 10 ''tock'' v3 = None"
    using C8_Fire [where h = heap0 and i = 10 and kind = "''tock''" and payload = v3,
        THEN conjunct1]
    by (simp add: heap0_def New_def)
  from C8_Fire [where h = heap0 and i = 10 and kind = "''tick''" and payload = v3,
        THEN conjunct1, THEN mp, OF n]
  have f1: "Fire heap0 10 ''tick'' v3 = None" .
  from C8_Fire [where h = heap0 and i = 10 and kind = "''tick''" and payload = v3
        and eventType = tEvent and xs = "[hEvent]" and h' = ?h',
        THEN conjunct2, THEN conjunct2, THEN conjunct2, THEN conjunct1, THEN mp, OF on]
  have f2: "Fire ?h' 10 ''tick'' v3 = Some \<lparr>Src = 10, Type = ''tick'', Data = v3\<rparr>" .
  from C8_Fire [where h = heap0 and i = 10 and kind = "''tock''" and payload = v3
        and eventType = tEvent and kind' = "''tick''" and hs' = "Some [hEvent]" and h' = ?h',
        THEN conjunct2, THEN conjunct2, THEN conjunct2, THEN conjunct2, THEN conjunct1,
        THEN mp, OF on2] f0
  have f3: "Fire ?h' 10 ''tock'' v3 = None" by simp
  let ?h0 = "heap0(10 := (heap0 10)\<lparr>handlers := (handlers (heap0 10))(''tick'' := None)\<rparr>)"
  have on0: "On tEvent heap0 10 ''tick'' None = Returns ?h0 \<and> handlers (heap0 10) ''tick'' = None"
    by (simp add: On_def heap0_def New_def)
  from C8_Fire [where h = heap0 and i = 10 and kind = "''tick''" and payload = v3
        and eventType = tEvent and h' = ?h0,
        THEN conjunct2, THEN conjunct2, THEN conjunct2, THEN conjunct2, THEN conjunct2,
        THEN mp, OF on0]
  have f4: "Fire ?h0 10 ''tick'' v3 = None" .
  from n on f1 f2 f3 f4 show ?thesis by blast
qed

section \<open>C9: Stop\<close>

lemma calls_starts: "calls loops (replicate a CallStart @ cs) = calls (loops + a) cs"
  by (induction a arbitrary: loops) (simp_all add: Start_def)

lemma calls_stops:
  "calls loops (replicate b CallStop) = (if b \<le> loops then Completes (loops - b) else Blocks)"
proof (induction b arbitrary: loops)
  case 0
  then show ?case by simp
next
  case (Suc b)
  show ?case
  proof (cases loops)
    case 0
    then show ?thesis by (simp add: Stop_def)
  next
    case (Suc n)
    with Suc.IH [of n] show ?thesis by (simp add: Stop_def)
  qed
qed

text \<open>
  Claim C9 as stated fails. \<^verbatim>\<open>Stop\<close> on a bus that was never started blocks, and so
  does the second of two \<^verbatim>\<open>Stop\<close> calls after one \<^verbatim>\<open>Start\<close>: the first ended the only
  goroutine that receives from \<^verbatim>\<open>stopped\<close>.
\<close>

theorem C9_counterexample:
  "Stop 0 = Blocks
   \<and> calls 0 [CallStop, CallStop] = Blocks
   \<and> calls 0 [CallStart, CallStop] = Completes 0
   \<and> calls 0 [CallStart, CallStop, CallStop] = Blocks"
  by (simp add: Stop_def Start_def)

text \<open>
  Claim C9, amended. \<^verbatim>\<open>Stop\<close> blocks exactly when no goroutine started by \<^verbatim>\<open>Start\<close>
  is alive; otherwise it completes and ends one of them; \<^verbatim>\<open>Stop\<close> right after
  \<^verbatim>\<open>Start\<close> completes. A goroutine that calls \<^verbatim>\<open>Start\<close> \<open>a\<close> times and then \<^verbatim>\<open>Stop\<close>
  \<open>b\<close> times completes all calls if and only if \<open>b\<close> is at most the number of
  goroutines alive, and is blocked in a \<^verbatim>\<open>Stop\<close> otherwise. So \<^verbatim>\<open>Stop\<close> is not
  idempotent: stopping an idle bus and stopping twice both block.
\<close>

theorem C9_Stop_needs_a_running_loop:
  "(Stop loops = Blocks \<longleftrightarrow> loops = 0)
 \<and> (Stop loops = Completes n \<longleftrightarrow> loops = Suc n)
 \<and> Stop (Start loops) = Completes loops
 \<and> calls loops (replicate a CallStart @ replicate b CallStop)
      = (if b \<le> loops + a then Completes (loops + a - b) else Blocks)"
proof (intro conjI)
  show "Stop loops = Blocks \<longleftrightarrow> loops = 0"
    by (cases loops) (simp_all add: Stop_def)
  show "Stop loops = Completes n \<longleftrightarrow> loops = Suc n"
    by (cases loops) (simp_all add: Stop_def)
  show "Stop (Start loops) = Completes loops"
    by (simp add: Stop_def Start_def)
  show "calls loops (replicate a CallStart @ replicate b CallStop)
      = (if b \<le> loops + a then Completes (loops + a - b) else Blocks)"
    by (simp only: calls_starts calls_stops)
qed

end
